theory Spec2Isabelle
  imports Main "HOL-Library.AList" "HOL-Library.Multiset"
begin

section \<open>Python values shared by every component\<close>

text \<open>
  A raised Python exception. The router's handler is \<^verbatim>\<open>except Exception\<close>, which
  catches instances of \<^verbatim>\<open>Exception\<close> and lets the other \<^verbatim>\<open>BaseException\<close>
  classes (\<^verbatim>\<open>KeyboardInterrupt\<close>, \<^verbatim>\<open>SystemExit\<close>) through, so the two are kept
  apart. The string is the class name.
\<close>

datatype exn = Exception string | BaseException string

text \<open>A call either returns a value (\<open>Inr\<close>) or raises (\<open>Inl\<close>).\<close>

type_synonym 'r outcome = "exn + 'r"

section \<open>core/module\_manager.py\<close>

text \<open>
  \<^verbatim>\<open>GameModule\<close>: the informal protocol every gameplay module implements. Both methods
  are arbitrary Python methods over the shared state \<open>'s\<close>: they may raise, and whatever
  they did to the state before raising stays done, so each returns its outcome together
  with the state it leaves behind.
\<close>

record ('a, 's) GameModule =
  class_name :: string
  can_handle :: "'a \<Rightarrow> 's \<Rightarrow> bool outcome \<times> 's"
  process_action :: "'a \<Rightarrow> 's \<Rightarrow> bool outcome \<times> 's"

text \<open>The three records \<^verbatim>\<open>ModuleManager.process_action\<close> writes to its logger.\<close>

datatype 'a logger_record =
    Info_processed_by string
  | Error_in string exn
  | Warning_no_module 'a

text \<open>
  The \<^verbatim>\<open>for module in self.modules\<close> loop of \<^verbatim>\<open>ModuleManager.process_action\<close>.
  \<open>Some r\<close> is the loop left early (by \<^verbatim>\<open>return True\<close>, or by an exception that
  no handler caught), \<open>None\<close> is the loop run to its end.
  \<^item> \<^verbatim>\<open>module.can_handle(action_data)\<close> is evaluated outside the \<^verbatim>\<open>try\<close>;
  \<^item> \<^verbatim>\<open>if success: return True\<close> has no \<^verbatim>\<open>else\<close>: a false result falls out of the
    \<^verbatim>\<open>try\<close> statement and the loop takes the next module;
  \<^item> \<^verbatim>\<open>except Exception\<close> logs the error and continues.
\<close>

fun route_loop ::
  "('a, 's) GameModule list \<Rightarrow> 'a \<Rightarrow> 's \<Rightarrow> 'a logger_record list
     \<Rightarrow> bool outcome option \<times> 's \<times> 'a logger_record list" where
  "route_loop [] a s lg = (None, s, lg)"
| "route_loop (m # ms) a s lg =
     (case can_handle m a s of
        (Inl e, s1) \<Rightarrow> (Some (Inl e), s1, lg)
      | (Inr False, s1) \<Rightarrow> route_loop ms a s1 lg
      | (Inr True, s1) \<Rightarrow>
          (case process_action m a s1 of
             (Inr True, s2) \<Rightarrow> (Some (Inr True), s2, lg @ [Info_processed_by (class_name m)])
           | (Inr False, s2) \<Rightarrow> route_loop ms a s2 lg
           | (Inl (Exception c), s2) \<Rightarrow>
               route_loop ms a s2 (lg @ [Error_in (class_name m) (Exception c)])
           | (Inl (BaseException c), s2) \<Rightarrow> (Some (Inl (BaseException c)), s2, lg)))"

text \<open>\<^verbatim>\<open>ModuleManager.process_action\<close>: the loop, then the warning and \<^verbatim>\<open>return False\<close>.\<close>

definition ModuleManager_process_action ::
  "('a, 's) GameModule list \<Rightarrow> 'a \<Rightarrow> 's \<Rightarrow> 'a logger_record list
     \<Rightarrow> bool outcome \<times> 's \<times> 'a logger_record list" where
  "ModuleManager_process_action ms a s lg =
     (case route_loop ms a s lg of
        (Some r, s', lg') \<Rightarrow> (r, s', lg')
      | (None, s', lg') \<Rightarrow> (Inr False, s', lg' @ [Warning_no_module a]))"

text \<open>
  The modules registered before the first one that claims an action: each of them has
  \<^verbatim>\<open>can_handle\<close> return false. \<open>first_claims_after pre a s\<close> is the state in which the
  loop reaches the module after \<open>pre\<close>, when every module of \<open>pre\<close> declines.
\<close>

fun first_claims_after :: "('a, 's) GameModule list \<Rightarrow> 'a \<Rightarrow> 's \<Rightarrow> 's option" where
  "first_claims_after [] a s = Some s"
| "first_claims_after (m # ms) a s =
     (case can_handle m a s of
        (Inr False, s1) \<Rightarrow> first_claims_after ms a s1
      | _ \<Rightarrow> None)"

subsection \<open>Modules for exercising the router\<close>

text \<open>
  Small modules over a state that records which \<^verbatim>\<open>process_action\<close> bodies ran.
\<close>

definition rejecting_module :: "(string, string list) GameModule" where
  "rejecting_module =
     \<lparr>class_name = ''Rejecting'',
      can_handle = (\<lambda>a s. (Inr True, s)),
      process_action = (\<lambda>a s. (Inr False, s @ [''Rejecting'']))\<rparr>"

definition accepting_module :: "(string, string list) GameModule" where
  "accepting_module =
     \<lparr>class_name = ''Accepting'',
      can_handle = (\<lambda>a s. (Inr True, s)),
      process_action = (\<lambda>a s. (Inr True, s @ [''Accepting'']))\<rparr>"

definition raising_module :: "(string, string list) GameModule" where
  "raising_module =
     \<lparr>class_name = ''Raising'',
      can_handle = (\<lambda>a s. (Inr True, s)),
      process_action = (\<lambda>a s. (Inl (Exception ''KeyError''), s @ [''Raising'']))\<rparr>"

definition unclaimable_module :: "(string, string list) GameModule" where
  "unclaimable_module =
     \<lparr>class_name = ''Unclaimable'',
      can_handle = (\<lambda>a s. (Inl (Exception ''AttributeError''), s)),
      process_action = (\<lambda>a s. (Inr True, s @ [''Unclaimable'']))\<rparr>"

text \<open>A module whose \<^verbatim>\<open>process_action\<close> is interrupted: \<^verbatim>\<open>KeyboardInterrupt\<close> is not an \<^verbatim>\<open>Exception\<close>.\<close>

definition interrupting_module :: "(string, string list) GameModule" where
  "interrupting_module =
     \<lparr>class_name = ''Interrupting'',
      can_handle = (\<lambda>a s. (Inr True, s)),
      process_action = (\<lambda>a s. (Inl (BaseException ''KeyboardInterrupt''), s @ [''Interrupting'']))\<rparr>"

definition declining_module :: "(string, string list) GameModule" where
  "declining_module =
     \<lparr>class_name = ''Declining'',
      can_handle = (\<lambda>a s. (Inr False, s)),
      process_action = (\<lambda>a s. (Inr True, s @ [''Declining'']))\<rparr>"

section \<open>GameStateManager.py\<close>

text \<open>
  One constructor for each f-string the modelled code appends to \<^verbatim>\<open>game_log\<close>, carrying
  the values the f-string interpolates: the log is kept structured, not rendered.
  \<open>Is_defeated n\<close> is the line \<^verbatim>\<open>{n} is defeated!\<close> and \<open>New_round\<close> is
  \<^verbatim>\<open>--- New Round ---\<close>.
\<close>

datatype log_entry =
    Moves string "int \<times> int" "int \<times> int"
  | Takes_damage string int int int
  | Is_defeated string
  | Too_far string string
  | Attack_roll string string int int int int
  | Attack_misses string string
  | Combat_started
  | Rolls_initiative string int
  | Turn_order_is "string list"
  | New_round
  | Not_enough_movement string int int
  | Moves_feet string "int \<times> int" "int \<times> int" int int
  | Already_dashed string
  | Dashes string
  | Outside_bounds string
  | Occupied_position string
  | Blocked_terrain string
  | Doesnt_know string "string option"
  | No_slots_left string int
  | Casts string string
  | Heals string int
  | Magic_missiles_hit string int
  | Gains_shield string
  | Defeated_by_fireball string
  | Fireball_deals int "string list"
  | Doesnt_have string "string option"
  | Equips string string
  | Unequips string string
  | Uses_and_heals string string int
  | Drops string string

text \<open>\<^verbatim>\<open>Item\<close> (modules/inventory.py); of \<^verbatim>\<open>properties\<close>, the keys the code reads.\<close>

record Item =
  item_name :: string
  item_type :: string
  quantity :: int
  prop_healing :: "string option"
  prop_attack_bonus :: "int option"
  prop_ac_bonus :: "int option"

text \<open>
  \<^verbatim>\<open>Character\<close>. Attributes that the code probes with \<^verbatim>\<open>hasattr\<close> or reads with
  \<^verbatim>\<open>getattr(..., default)\<close> are optional fields. \<^verbatim>\<open>spells_known\<close>, \<^verbatim>\<open>spell_slots\<close> and
  \<^verbatim>\<open>spell_slots_used\<close> are attached together by the spells module, and \<^verbatim>\<open>inventory\<close>
  and \<^verbatim>\<open>equipped\<close> together by the inventory module, so each group is one optional
  field. The two slot tables and \<^verbatim>\<open>equipped\<close> are dicts, kept as association lists.
\<close>

record Character =
  char_id :: string
  name :: string
  char_type :: string
  position :: "int \<times> int"
  hp :: int
  max_hp :: int
  ac :: int
  attack_bonus :: "int option"
  initiative :: int
  dexterity :: "int option"
  race_stats_speed :: "int option"
  dashed_this_turn :: bool
  spells :: "(string list \<times> (int \<times> int) list \<times> (int \<times> int) list) option"
  temp_ac_bonus :: "int option"
  inventory :: "(Item list \<times> (string \<times> Item option) list) option"
  equipment_attack_bonus :: "int option"
  equipment_ac_bonus :: "int option"

text \<open>\<^verbatim>\<open>map_data\<close>: the keys the code reads, each possibly absent.\<close>

record MapData =
  width :: "int option"
  height :: "int option"
  terrain :: "(string \<times> (int \<times> int) list) list option"

text \<open>
  \<^verbatim>\<open>GameStateManager\<close>. \<^verbatim>\<open>characters\<close> is a dict, which keeps insertion order: an
  association list from key to character. A character object is reached only through
  the dict, so mutating the object is replacing the entry under its key.
\<close>

record GameStateManager =
  characters :: "(string \<times> Character) list"
  map_data :: MapData
  combat_active :: bool
  game_log :: "log_entry list"
  turn_order :: "string list"
  current_turn_index :: int

definition get_character_by_id :: "GameStateManager \<Rightarrow> string \<Rightarrow> Character option" where
  "get_character_by_id gsm cid = map_of (characters gsm) cid"

definition add_to_log :: "log_entry \<Rightarrow> GameStateManager \<Rightarrow> GameStateManager" where
  "add_to_log msg gsm = gsm\<lparr>game_log := game_log gsm @ [msg]\<rparr>"

text \<open>Assigning to attributes of the character object stored under key \<open>cid\<close>.\<close>

definition set_character :: "string \<Rightarrow> Character \<Rightarrow> GameStateManager \<Rightarrow> GameStateManager" where
  "set_character cid c gsm =
     gsm\<lparr>characters := map (\<lambda>(k, v). if k = cid then (k, c) else (k, v)) (characters gsm)\<rparr>"

text \<open>
  What the constructor and \<^verbatim>\<open>add_character\<close> establish: dict keys are unique and a
  character is stored under its own \<^verbatim>\<open>id\<close>.
\<close>

definition wf_characters :: "(string \<times> Character) list \<Rightarrow> bool" where
  "wf_characters cs \<longleftrightarrow> distinct (map fst cs) \<and> list_all (\<lambda>(k, c). char_id c = k) cs"

text \<open>
  The occupancy loop of \<^verbatim>\<open>move_character\<close>: true when the loop reaches its
  \<^verbatim>\<open>return False\<close>.
\<close>

fun occupied_by_other :: "Character list \<Rightarrow> string \<Rightarrow> int \<times> int \<Rightarrow> bool" where
  "occupied_by_other [] cid p = False"
| "occupied_by_other (other_char # rest) cid p =
     (if char_id other_char \<noteq> cid \<and> position other_char = p then True
      else occupied_by_other rest cid p)"

definition map_width :: "GameStateManager \<Rightarrow> int" where
  "map_width gsm = (case width (map_data gsm) of None \<Rightarrow> 10 | Some w \<Rightarrow> w)"

definition map_height :: "GameStateManager \<Rightarrow> int" where
  "map_height gsm = (case height (map_data gsm) of None \<Rightarrow> 10 | Some h \<Rightarrow> h)"

definition move_character ::
  "string \<Rightarrow> int \<times> int \<Rightarrow> GameStateManager \<Rightarrow> bool \<times> GameStateManager" where
  "move_character cid new_position gsm =
     (case get_character_by_id gsm cid of
        None \<Rightarrow> (False, gsm)
      | Some character \<Rightarrow>
          if 0 \<le> fst new_position \<and> fst new_position < map_width gsm \<and>
             0 \<le> snd new_position \<and> snd new_position < map_height gsm
          then
            if occupied_by_other (map snd (characters gsm)) cid new_position then (False, gsm)
            else
              let old_pos = position character;
                  gsm1 = set_character cid (character\<lparr>position := new_position\<rparr>) gsm
              in (True, add_to_log (Moves (name character) old_pos new_position) gsm1)
          else (False, gsm))"

definition apply_damage :: "string \<Rightarrow> int \<Rightarrow> GameStateManager \<Rightarrow> bool \<times> GameStateManager" where
  "apply_damage cid damage gsm =
     (case get_character_by_id gsm cid of
        None \<Rightarrow> (False, gsm)
      | Some character \<Rightarrow>
          let new_hp = max 0 (hp character - damage);
              gsm1 = set_character cid (character\<lparr>hp := new_hp\<rparr>) gsm;
              gsm2 = add_to_log (Takes_damage (name character) damage new_hp (max_hp character)) gsm1
          in if new_hp \<le> 0 then (True, add_to_log (Is_defeated (name character)) gsm2)
             else (True, gsm2))"

section \<open>Randomness\<close>

text \<open>
  The generator is a list of raw draws still to come; an exhausted list keeps drawing 0.
  \<^verbatim>\<open>random.randint(a, b)\<close> maps the next raw draw into \<open>a..b\<close>, so every draw list
  gives results in range and every sequence of in-range results comes from some draw
  list. With \<open>b < a\<close> the call raises \<^verbatim>\<open>ValueError\<close>.
\<close>

type_synonym rng = "nat list"

definition draw :: "int \<Rightarrow> int \<Rightarrow> rng \<Rightarrow> int \<times> rng" where
  "draw a b g = (case g of [] \<Rightarrow> (a, []) | r # g' \<Rightarrow> (a + int r mod (b - a + 1), g'))"

definition randint :: "int \<Rightarrow> int \<Rightarrow> rng \<Rightarrow> int outcome \<times> rng" where
  "randint a b g =
     (if b < a then (Inl (Exception ''ValueError''), g)
      else let (r, g') = draw a b g in (Inr r, g'))"

section \<open>modules/combat.py and core/GameEngine.py\<close>

definition manhattan :: "int \<times> int \<Rightarrow> int \<times> int \<Rightarrow> int" where
  "manhattan p q = \<bar>fst p - fst q\<bar> + \<bar>snd p - snd q\<bar>"

text \<open>\<^verbatim>\<open>CombatModule._apply_damage\<close>, the module's own copy of the primitive.\<close>

definition CombatModule_apply_damage ::
  "string \<Rightarrow> int \<Rightarrow> GameStateManager \<Rightarrow> bool \<times> GameStateManager" where
  "CombatModule_apply_damage cid damage gsm =
     (case get_character_by_id gsm cid of
        None \<Rightarrow> (False, gsm)
      | Some character \<Rightarrow>
          let new_hp = max 0 (hp character - damage);
              gsm1 = set_character cid (character\<lparr>hp := new_hp\<rparr>) gsm;
              gsm2 = add_to_log (Takes_damage (name character) damage new_hp (max_hp character)) gsm1
          in if new_hp \<le> 0 then (True, add_to_log (Is_defeated (name character)) gsm2)
             else (True, gsm2))"

text \<open>
  \<^verbatim>\<open>CombatModule._execute_attack\<close>. Both \<^verbatim>\<open>randint\<close> calls have a non-empty range and
  cannot raise. An id that is \<^verbatim>\<open>None\<close> resolves to no character, as a missing key does.
\<close>

definition CombatModule_execute_attack ::
  "string option \<Rightarrow> string option \<Rightarrow> GameStateManager \<Rightarrow> rng \<Rightarrow> bool \<times> GameStateManager \<times> rng" where
  "CombatModule_execute_attack attacker_id target_id gsm g =
     (case (Option.bind attacker_id (get_character_by_id gsm),
            Option.bind target_id (get_character_by_id gsm)) of
        (Some attacker, Some target) \<Rightarrow>
          if manhattan (position attacker) (position target) > 1
          then (False, add_to_log (Too_far (name attacker) (name target)) gsm, g)
          else
            let (attack_roll, g1) = draw 1 20 g;
                attack_modifier = (case attack_bonus attacker of None \<Rightarrow> 3 | Some b \<Rightarrow> b);
                total_attack = attack_roll + attack_modifier;
                gsm1 = add_to_log (Attack_roll (name attacker) (name target) attack_roll
                                     attack_modifier total_attack (ac target)) gsm
            in if total_attack \<ge> ac target
               then let (d, g2) = draw 1 8 g1;
                        damage = d + 2
                    in (True, snd (CombatModule_apply_damage (the target_id) damage gsm1), g2)
               else (True, add_to_log (Attack_misses (name attacker) (name target)) gsm1, g1)
      | _ \<Rightarrow> (False, gsm, g))"

text \<open>
  \<^verbatim>\<open>GameEngine.execute_attack\<close>: the same with a fixed modifier of 3 and the state
  manager's \<^verbatim>\<open>apply_damage\<close>.
\<close>

definition GameEngine_execute_attack ::
  "string option \<Rightarrow> string option \<Rightarrow> GameStateManager \<Rightarrow> rng \<Rightarrow> bool \<times> GameStateManager \<times> rng" where
  "GameEngine_execute_attack attacker_id target_id gsm g =
     (case (Option.bind attacker_id (get_character_by_id gsm),
            Option.bind target_id (get_character_by_id gsm)) of
        (Some attacker, Some target) \<Rightarrow>
          if manhattan (position attacker) (position target) > 1
          then (False, add_to_log (Too_far (name attacker) (name target)) gsm, g)
          else
            let (attack_roll, g1) = draw 1 20 g;
                attack_modifier = 3;
                total_attack = attack_roll + attack_modifier;
                gsm1 = add_to_log (Attack_roll (name attacker) (name target) attack_roll
                                     attack_modifier total_attack (ac target)) gsm
            in if total_attack \<ge> ac target
               then let (d, g2) = draw 1 8 g1;
                        damage = d + 2
                    in (True, snd (apply_damage (the target_id) damage gsm1), g2)
               else (True, add_to_log (Attack_misses (name attacker) (name target)) gsm1, g1)
      | _ \<Rightarrow> (False, gsm, g))"

text \<open>
  The initiative loop of \<^verbatim>\<open>_start_combat\<close>, over \<^verbatim>\<open>characters.values()\<close> in dict
  order: one roll per character, stored in the character and logged.
\<close>

fun roll_initiative ::
  "(string \<times> Character) list \<Rightarrow> rng \<Rightarrow> (string \<times> Character) list \<times> log_entry list \<times> rng" where
  "roll_initiative [] g = ([], [], g)"
| "roll_initiative ((k, character) # rest) g =
     (let (initiative_roll, g1) = draw 1 20 g;
          (rest', lg, g2) = roll_initiative rest g1
      in ((k, character\<lparr>initiative := initiative_roll\<rparr>) # rest',
          Rolls_initiative (name character) initiative_roll # lg, g2))"

text \<open>
  \<^verbatim>\<open>sorted(xs, key=f, reverse=True)\<close>. CPython reverses the list, sorts it stably in
  ascending order and reverses the result, which is how equal keys keep their order.
\<close>

definition sorted_reverse :: "('a \<Rightarrow> int) \<Rightarrow> 'a list \<Rightarrow> 'a list" where
  "sorted_reverse f xs = rev (sort_key f (rev xs))"

text \<open>\<^verbatim>\<open>self.gsm.characters[char_id].initiative\<close>, for a key of the dict.\<close>

definition initiative_of :: "(string \<times> Character) list \<Rightarrow> string \<Rightarrow> int" where
  "initiative_of cs k = (case map_of cs k of Some c \<Rightarrow> initiative c | None \<Rightarrow> 0)"

definition name_of :: "(string \<times> Character) list \<Rightarrow> string \<Rightarrow> string" where
  "name_of cs k = (case map_of cs k of Some c \<Rightarrow> name c | None \<Rightarrow> [])"

definition start_combat :: "GameStateManager \<Rightarrow> rng \<Rightarrow> bool \<times> GameStateManager \<times> rng" where
  "start_combat gsm g =
     (let gsm1 = add_to_log Combat_started (gsm\<lparr>combat_active := True\<rparr>);
          (cs, lg, g1) = roll_initiative (characters gsm1) g;
          gsm2 = gsm1\<lparr>characters := cs, game_log := game_log gsm1 @ lg\<rparr>;
          gsm3 = gsm2\<lparr>turn_order := sorted_reverse (initiative_of cs) (map fst cs)\<rparr>;
          gsm4 = gsm3\<lparr>current_turn_index := 0\<rparr>;
          turn_order_names = map (name_of cs) (turn_order gsm4)
      in (True, add_to_log (Turn_order_is turn_order_names) gsm4, g1))"

definition advance_turn :: "GameStateManager \<Rightarrow> GameStateManager" where
  "advance_turn gsm =
     (let gsm1 = gsm\<lparr>current_turn_index := current_turn_index gsm + 1\<rparr>
      in if current_turn_index gsm1 \<ge> int (length (turn_order gsm1))
         then add_to_log New_round (gsm1\<lparr>current_turn_index := 0\<rparr>)
         else gsm1)"

definition new_game :: GameStateManager where
  "new_game =
     \<lparr>characters = [], map_data = \<lparr>width = None, height = None, terrain = None\<rparr>,
      combat_active = False, game_log = [], turn_order = [], current_turn_index = 0\<rparr>"

text \<open>Calling \<^verbatim>\<open>advance_turn\<close> \<open>n\<close> times in a row.\<close>

definition advance_turns :: "nat \<Rightarrow> GameStateManager \<Rightarrow> GameStateManager" where
  "advance_turns n = advance_turn ^^ n"

section \<open>Dice strings\<close>

text \<open>
  \<^verbatim>\<open>_roll_dice\<close>, defined with the same body in the spells and the inventory module.
  \<^verbatim>\<open>re.match(r'(\d+)d(\d+)(?:\+(\d+))?', dice_string)\<close> anchors at the start only; each
  \<^verbatim>\<open>\d+\<close> is greedy and what follows it is not a digit, so the match takes the longest
  digit runs. Strings are ASCII here.
\<close>

definition is_digit :: "char \<Rightarrow> bool" where
  "is_digit c \<longleftrightarrow> c \<in> set ''0123456789''"

definition digit_value :: "char \<Rightarrow> nat" where
  "digit_value c = of_char c - of_char CHR ''0''"

definition int_of_digits :: "string \<Rightarrow> int" where
  "int_of_digits ds = int (foldl (\<lambda>acc c. 10 * acc + digit_value c) 0 ds)"

definition match_dice :: "string \<Rightarrow> (int \<times> int \<times> int) option" where
  "match_dice dice_string =
     (let g1 = takeWhile is_digit dice_string; r1 = dropWhile is_digit dice_string
      in if g1 = [] then None
         else case r1 of
                [] \<Rightarrow> None
              | c # r2 \<Rightarrow>
                  if c \<noteq> CHR ''d'' then None
                  else let g2 = takeWhile is_digit r2; r3 = dropWhile is_digit r2
                       in if g2 = [] then None
                          else case r3 of
                                 [] \<Rightarrow> Some (int_of_digits g1, int_of_digits g2, 0)
                               | p # r4 \<Rightarrow>
                                   let g3 = takeWhile is_digit r4
                                   in if p = CHR ''+'' \<and> g3 \<noteq> []
                                      then Some (int_of_digits g1, int_of_digits g2, int_of_digits g3)
                                      else Some (int_of_digits g1, int_of_digits g2, 0))"

text \<open>\<^verbatim>\<open>sum(random.randint(1, die_size) for _ in range(num_dice))\<close>.\<close>

fun roll_sum :: "nat \<Rightarrow> int \<Rightarrow> rng \<Rightarrow> int outcome \<times> rng" where
  "roll_sum 0 die_size g = (Inr 0, g)"
| "roll_sum (Suc n) die_size g =
     (case randint 1 die_size g of
        (Inl e, g1) \<Rightarrow> (Inl e, g1)
      | (Inr r, g1) \<Rightarrow>
          (case roll_sum n die_size g1 of
             (Inl e, g2) \<Rightarrow> (Inl e, g2)
           | (Inr t, g2) \<Rightarrow> (Inr (r + t), g2)))"

definition roll_dice :: "string \<Rightarrow> rng \<Rightarrow> int outcome \<times> rng" where
  "roll_dice dice_string g =
     (case match_dice dice_string of
        None \<Rightarrow> (Inr 0, g)
      | Some (num_dice, die_size, modifier) \<Rightarrow>
          (case roll_sum (nat num_dice) die_size g of
             (Inl e, g1) \<Rightarrow> (Inl e, g1)
           | (Inr rolled, g1) \<Rightarrow> (Inr (rolled + modifier), g1)))"

section \<open>modules/spells.py\<close>

text \<open>\<^verbatim>\<open>Spell\<close>: of the definition, the attributes the casting code reads.\<close>

record Spell =
  spell_name :: string
  level :: int
  school :: string

definition spell_database :: "(string \<times> Spell) list" where
  "spell_database =
     [(''cure_wounds'', \<lparr>spell_name = ''Cure Wounds'', level = 1, school = ''evocation''\<rparr>),
      (''magic_missile'', \<lparr>spell_name = ''Magic Missile'', level = 1, school = ''evocation''\<rparr>),
      (''shield'', \<lparr>spell_name = ''Shield'', level = 1, school = ''abjuration''\<rparr>),
      (''fireball'', \<lparr>spell_name = ''Fireball'', level = 3, school = ''evocation''\<rparr>)]"

text \<open>\<^verbatim>\<open>str.lower()\<close> and \<^verbatim>\<open>str.replace(" ", "_")\<close>, on ASCII.\<close>

definition lower_char :: "char \<Rightarrow> char" where
  "lower_char c =
     (if of_char CHR ''A'' \<le> (of_char c :: nat) \<and> (of_char c :: nat) \<le> of_char CHR ''Z''
      then char_of (of_char c + (32 :: nat)) else c)"

definition lower :: "string \<Rightarrow> string" where
  "lower s = map lower_char s"

definition replace_space :: "string \<Rightarrow> string" where
  "replace_space s = map (\<lambda>c. if c = CHR '' '' then CHR ''_'' else c) s"

text \<open>The fireball loop over \<^verbatim>\<open>characters.values()\<close>: characters, defeat lines, names hit.\<close>

fun fireball_loop ::
  "(string \<times> Character) list \<Rightarrow> int
     \<Rightarrow> (string \<times> Character) list \<times> log_entry list \<times> string list" where
  "fireball_loop [] damage = ([], [], [])"
| "fireball_loop ((k, c) # rest) damage =
     (let (rest', lg, targets_hit) = fireball_loop rest damage
      in if char_type c = ''monster'' \<and> hp c > 0
         then let new_hp = max 0 (hp c - damage)
              in ((k, c\<lparr>hp := new_hp\<rparr>) # rest',
                  (if new_hp \<le> 0 then [Defeated_by_fireball (name c)] else []) @ lg,
                  name c # targets_hit)
         else ((k, c) # rest', lg, targets_hit))"

text \<open>
  \<^verbatim>\<open>_execute_spell_effect(spell, caster, target)\<close>. The caster and the target are
  objects of the character dict, given here by their keys, so that a caster who is their
  own target is one entry. \<open>target = None\<close> is the \<^verbatim>\<open>None\<close> that a failed lookup of
  \<^verbatim>\<open>target_id\<close> leaves. The dice strings are literals that always match and never
  raise; the fall-back branches for a raising roll leave the state alone. The caster key
  always resolves when the call comes from \<^verbatim>\<open>_cast_spell\<close>; the shield branch answers
  false for a key that does not.
\<close>

definition execute_spell_effect ::
  "Spell \<Rightarrow> string \<Rightarrow> string option \<Rightarrow> GameStateManager \<Rightarrow> rng
     \<Rightarrow> bool outcome \<times> GameStateManager \<times> rng" where
  "execute_spell_effect spell caster target gsm g =
     (let sname = replace_space (lower (spell_name spell))
      in if sname = ''cure_wounds'' then
           (case Option.bind target (get_character_by_id gsm) of
              None \<Rightarrow> (Inr False, gsm, g)
            | Some t \<Rightarrow>
                (case roll_dice ''1d8'' g of
                   (Inl e, g1) \<Rightarrow> (Inl e, gsm, g1)
                 | (Inr r, g1) \<Rightarrow>
                     let healing = r + 3;
                         old_hp = hp t;
                         new_hp = min (max_hp t) (hp t + healing);
                         gsm1 = set_character (the target) (t\<lparr>hp := new_hp\<rparr>) gsm
                     in (Inr True, add_to_log (Heals (name t) (new_hp - old_hp)) gsm1, g1)))
         else if sname = ''magic_missile'' then
           (case Option.bind target (get_character_by_id gsm) of
              None \<Rightarrow> (Inr False, gsm, g)
            | Some t \<Rightarrow>
                (case roll_dice ''1d4'' g of
                   (Inl e, g1) \<Rightarrow> (Inl e, gsm, g1)
                 | (Inr r1, g1) \<Rightarrow>
                (case roll_dice ''1d4'' g1 of
                   (Inl e, g2) \<Rightarrow> (Inl e, gsm, g2)
                 | (Inr r2, g2) \<Rightarrow>
                (case roll_dice ''1d4'' g2 of
                   (Inl e, g3) \<Rightarrow> (Inl e, gsm, g3)
                 | (Inr r3, g3) \<Rightarrow>
                     let total_damage = (r1 + 1) + (r2 + 1) + (r3 + 1);
                         new_hp = max 0 (hp t - total_damage);
                         gsm1 = set_character (the target) (t\<lparr>hp := new_hp\<rparr>) gsm;
                         gsm2 = add_to_log (Magic_missiles_hit (name t) total_damage) gsm1
                     in if new_hp \<le> 0
                        then (Inr True, add_to_log (Is_defeated (name t)) gsm2, g3)
                        else (Inr True, gsm2, g3)))))
         else if sname = ''shield'' then
           (case get_character_by_id gsm caster of
              None \<Rightarrow> (Inr False, gsm, g)
            | Some c \<Rightarrow>
                let bonus = (case temp_ac_bonus c of None \<Rightarrow> 0 | Some b \<Rightarrow> b);
                    gsm1 = set_character caster
                             (c\<lparr>temp_ac_bonus := Some (bonus + 5), ac := ac c + 5\<rparr>) gsm
                in (Inr True, add_to_log (Gains_shield (name c)) gsm1, g))
         else if sname = ''fireball'' then
           (case roll_dice ''8d6'' g of
              (Inl e, g1) \<Rightarrow> (Inl e, gsm, g1)
            | (Inr damage, g1) \<Rightarrow>
                let (cs, lg, targets_hit) = fireball_loop (characters gsm) damage;
                    gsm1 = gsm\<lparr>characters := cs, game_log := game_log gsm @ lg\<rparr>
                in if targets_hit \<noteq> []
                   then (Inr True, add_to_log (Fireball_deals damage targets_hit) gsm1, g1)
                   else (Inr True, gsm1, g1))
         else (Inr False, gsm, g))"

text \<open>\<^verbatim>\<open>d[k]\<close> on a dict: \<^verbatim>\<open>KeyError\<close> for a missing key.\<close>

definition getitem :: "('k \<times> 'v) list \<Rightarrow> 'k \<Rightarrow> 'v outcome" where
  "getitem d k = (case map_of d k of None \<Rightarrow> Inl (Exception ''KeyError'') | Some v \<Rightarrow> Inr v)"

text \<open>
  \<^verbatim>\<open>_cast_spell(caster, spell_name, target_id)\<close>; the caster is the character under key
  \<open>caster\<close>. A \<^verbatim>\<open>target_id\<close> that is \<^verbatim>\<open>None\<close> or empty is falsy and targets the caster.
\<close>

definition cast_spell ::
  "string \<Rightarrow> string option \<Rightarrow> string option \<Rightarrow> GameStateManager \<Rightarrow> rng
     \<Rightarrow> bool outcome \<times> GameStateManager \<times> rng" where
  "cast_spell caster sp_name target_id gsm g =
     (case get_character_by_id gsm caster of
        None \<Rightarrow> (Inr False, gsm, g)
      | Some c \<Rightarrow>
          (case spells c of
             None \<Rightarrow> (Inr False, add_to_log (Doesnt_know (name c) sp_name) gsm, g)
           | Some (spells_known, spell_slots, spell_slots_used) \<Rightarrow>
               if sp_name \<notin> Some ` set spells_known
               then (Inr False, add_to_log (Doesnt_know (name c) sp_name) gsm, g)
               else
                 (case map_of spell_database (the sp_name) of
                    None \<Rightarrow> (Inr False, gsm, g)
                  | Some spell \<Rightarrow>
                      (case (getitem spell_slots_used (level spell), getitem spell_slots (level spell)) of
                         (Inl e, _) \<Rightarrow> (Inl e, gsm, g)
                       | (Inr used, Inl e) \<Rightarrow> (Inl e, gsm, g)
                       | (Inr used, Inr slots) \<Rightarrow>
                           if used \<ge> slots
                           then (Inr False, add_to_log (No_slots_left (name c) (level spell)) gsm, g)
                           else
                             let used' = AList.update (level spell) (used + 1) spell_slots_used;
                                 gsm1 = set_character caster
                                          (c\<lparr>spells := Some (spells_known, spell_slots, used')\<rparr>) gsm;
                                 target = (if target_id \<noteq> None \<and> target_id \<noteq> Some []
                                           then (if get_character_by_id gsm1 (the target_id) = None
                                                 then None else target_id)
                                           else Some caster)
                             in (case execute_spell_effect spell caster target gsm1 g of
                                   (Inr True, gsm2, g1) \<Rightarrow>
                                     (Inr True, add_to_log (Casts (name c) (spell_name spell)) gsm2, g1)
                                 | r \<Rightarrow> r)))))"

section \<open>The action record\<close>

text \<open>
  \<^verbatim>\<open>action_data\<close>, a dict: the keys the modules read; \<open>None\<close> is a key that is
  absent, which is what \<^verbatim>\<open>action_data.get(key)\<close> and its defaults tell apart.
\<close>

record Action =
  a_type :: "string option"
  a_character_id :: "string option"
  a_position :: "(int \<times> int) option"
  a_attacker_id :: "string option"
  a_target_id :: "string option"
  a_spell_name :: "string option"
  a_item_name :: "string option"

text \<open>\<^verbatim>\<open>action_data.get(key, default)\<close>.\<close>

definition get_default :: "'v option \<Rightarrow> 'v \<Rightarrow> 'v" where
  "get_default v d = (case v of None \<Rightarrow> d | Some x \<Rightarrow> x)"

text \<open>Truthiness of an optional string: \<^verbatim>\<open>None\<close> and the empty string are falsy.\<close>

definition truthy :: "string option \<Rightarrow> bool" where
  "truthy v \<longleftrightarrow> v \<noteq> None \<and> v \<noteq> Some []"

subsection \<open>SpellsModule.process\_action\<close>

text \<open>
  The \<^verbatim>\<open>prepare_spell\<close> branch calls \<^verbatim>\<open>self._prepare_spell\<close>, which the class does
  not define: the attribute lookup raises \<^verbatim>\<open>AttributeError\<close>.
\<close>

definition SpellsModule_process_action ::
  "Action \<Rightarrow> GameStateManager \<Rightarrow> rng \<Rightarrow> bool outcome \<times> GameStateManager \<times> rng" where
  "SpellsModule_process_action a gsm g =
     (let character_id = get_default (a_character_id a) ''player''
      in case get_character_by_id gsm character_id of
           None \<Rightarrow> (Inr False, gsm, g)
         | Some character \<Rightarrow>
             if a_type a = Some ''cast_spell''
             then cast_spell character_id (a_spell_name a) (a_target_id a) gsm g
             else if a_type a = Some ''prepare_spell''
             then (Inl (Exception ''AttributeError''), gsm, g)
             else (Inr False, gsm, g))"

subsection \<open>CombatModule.process\_action\<close>

definition handle_attack ::
  "Action \<Rightarrow> GameStateManager \<Rightarrow> rng \<Rightarrow> bool \<times> GameStateManager \<times> rng" where
  "handle_attack a gsm g =
     (let attacker_id = get_default (a_attacker_id a) ''player'';
          target_id = a_target_id a
      in if \<not> truthy target_id then (False, gsm, g)
         else CombatModule_execute_attack (Some attacker_id) target_id gsm g)"

definition CombatModule_process_action ::
  "Action \<Rightarrow> GameStateManager \<Rightarrow> rng \<Rightarrow> bool \<times> GameStateManager \<times> rng" where
  "CombatModule_process_action a gsm g =
     (if a_type a = Some ''attack'' then handle_attack a gsm g
      else if a_type a = Some ''start_combat'' then start_combat gsm g
      else (False, gsm, g))"

section \<open>modules/movement.py\<close>

text \<open>
  The module's own \<^verbatim>\<open>movement_used\<close> dict travels with the state manager.
\<close>

type_synonym movement_used = "(string \<times> int) list"

definition get_character_speed :: "Character \<Rightarrow> int" where
  "get_character_speed character = get_default (race_stats_speed character) 30"

text \<open>
  \<^verbatim>\<open>_is_position_blocked\<close>: some terrain type lists the position and that type is
  \<^verbatim>\<open>'trees'\<close>.
\<close>

definition is_position_blocked :: "GameStateManager \<Rightarrow> int \<times> int \<Rightarrow> bool" where
  "is_position_blocked gsm p =
     list_ex (\<lambda>(terrain_type, positions). p \<in> set positions \<and> terrain_type = ''trees'')
       (get_default (terrain (map_data gsm)) [])"

definition is_valid_move ::
  "Character \<Rightarrow> int \<times> int \<Rightarrow> GameStateManager \<Rightarrow> bool \<times> GameStateManager" where
  "is_valid_move character new_position gsm =
     (if \<not> (0 \<le> fst new_position \<and> fst new_position < map_width gsm \<and>
             0 \<le> snd new_position \<and> snd new_position < map_height gsm)
      then (False, add_to_log (Outside_bounds (name character)) gsm)
      else if occupied_by_other (map snd (characters gsm)) (char_id character) new_position
      then (False, add_to_log (Occupied_position (name character)) gsm)
      else if is_position_blocked gsm new_position
      then (False, add_to_log (Blocked_terrain (name character)) gsm)
      else (True, gsm))"

definition handle_movement ::
  "string \<Rightarrow> int \<times> int \<Rightarrow> GameStateManager \<Rightarrow> movement_used
     \<Rightarrow> bool \<times> GameStateManager \<times> movement_used" where
  "handle_movement character_id new_position gsm mu =
     (case get_character_by_id gsm character_id of
        None \<Rightarrow> (False, gsm, mu)
      | Some character \<Rightarrow>
          let current_pos = position character;
              distance = manhattan new_position current_pos;
              distance_feet = distance * 5;
              speed = get_character_speed character;
              used_movement = get_default (map_of mu character_id) 0;
              remaining_movement = speed - used_movement
          in if distance_feet > remaining_movement
             then (False,
                   add_to_log (Not_enough_movement (name character) distance_feet remaining_movement) gsm,
                   mu)
             else
               (case is_valid_move character new_position gsm of
                  (False, gsm1) \<Rightarrow> (False, gsm1, mu)
                | (True, gsm1) \<Rightarrow>
                    let gsm2 = set_character character_id (character\<lparr>position := new_position\<rparr>) gsm1;
                        mu' = AList.update character_id (used_movement + distance_feet) mu;
                        remaining = speed - (used_movement + distance_feet)
                    in (True,
                        add_to_log (Moves_feet (name character) current_pos new_position
                                      distance_feet remaining) gsm2,
                        mu')))"

definition handle_dash ::
  "string \<Rightarrow> GameStateManager \<Rightarrow> movement_used \<Rightarrow> bool \<times> GameStateManager \<times> movement_used" where
  "handle_dash character_id gsm mu =
     (case get_character_by_id gsm character_id of
        None \<Rightarrow> (False, gsm, mu)
      | Some character \<Rightarrow>
          if dashed_this_turn character
          then (False, add_to_log (Already_dashed (name character)) gsm, mu)
          else
            let speed = get_character_speed character;
                gsm1 = set_character character_id (character\<lparr>dashed_this_turn := True\<rparr>) gsm;
                used_before_dash = get_default (map_of mu character_id) 0;
                mu' = AList.update character_id (max 0 (used_before_dash - speed)) mu
            in (True, add_to_log (Dashes (name character)) gsm1, mu'))"

definition MovementModule_process_action ::
  "Action \<Rightarrow> GameStateManager \<Rightarrow> movement_used \<Rightarrow> bool \<times> GameStateManager \<times> movement_used" where
  "MovementModule_process_action a gsm mu =
     (let character_id = get_default (a_character_id a) ''player''
      in if a_type a = Some ''move''
         then handle_movement character_id (get_default (a_position a) (0, 0)) gsm mu
         else if a_type a = Some ''dash'' then handle_dash character_id gsm mu
         else (False, gsm, mu))"

section \<open>modules/inventory.py\<close>

text \<open>
  The inventory operations mutate one character object and append to the log; each is a
  function from the character to the character it leaves and the lines it logs.
  An equipped item is the inventory's own object; the code reads only the name, type and
  properties of an equipped item, which no operation changes, so the slot holds the value.

  \<^verbatim>\<open>_find_item_in_inventory\<close> gives the position of the first item whose lowered name
  is the lowered \<^verbatim>\<open>item_name\<close>. With \<^verbatim>\<open>item_name = None\<close> the comparison's
  \<^verbatim>\<open>item_name.lower()\<close> raises on the first item.
\<close>

fun find_item_in_inventory :: "Item list \<Rightarrow> string option \<Rightarrow> nat option outcome" where
  "find_item_in_inventory [] nm = Inr None"
| "find_item_in_inventory (item # rest) nm =
     (case nm of
        None \<Rightarrow> Inl (Exception ''AttributeError'')
      | Some n \<Rightarrow>
          if lower (item_name item) = lower n then Inr (Some 0)
          else (case find_item_in_inventory rest nm of
                  Inr (Some i) \<Rightarrow> Inr (Some (Suc i))
                | r \<Rightarrow> r))"

definition get_ability_modifier_dexterity :: "Character \<Rightarrow> int" where
  "get_ability_modifier_dexterity c = (get_default (dexterity c) 10 - 10) div 2"

definition apply_item_bonuses :: "Character \<Rightarrow> Item \<Rightarrow> bool \<Rightarrow> Character" where
  "apply_item_bonuses c item equip =
     (let modifier = (if equip then 1 else - 1);
          c1 = (case prop_attack_bonus item of
                  Some b \<Rightarrow>
                    if item_type item = ''weapon''
                    then c\<lparr>equipment_attack_bonus :=
                             Some (get_default (equipment_attack_bonus c) 0 + b * modifier)\<rparr>
                    else c
                | None \<Rightarrow> c)
      in case prop_ac_bonus item of
           Some b \<Rightarrow>
             if item_type item = ''armor'' \<or> item_type item = ''shield''
             then let eb = get_default (equipment_ac_bonus c1) 0 + b * modifier;
                      base_ac = 10 + (if item_type item \<noteq> ''armor''
                                      then get_ability_modifier_dexterity c1 else 0)
                  in c1\<lparr>equipment_ac_bonus := Some eb, ac := base_ac + eb\<rparr>
             else c1
         | None \<Rightarrow> c1)"

text \<open>The loop of \<^verbatim>\<open>_unequip_item\<close> over \<^verbatim>\<open>equipped.items()\<close>: the first slot to clear.\<close>

fun find_equipped :: "(string \<times> Item option) list \<Rightarrow> string option \<Rightarrow> (string \<times> Item) option" where
  "find_equipped [] nm = None"
| "find_equipped ((slot, None) # rest) nm = find_equipped rest nm"
| "find_equipped ((slot, Some item) # rest) nm =
     (if Some (item_name item) = nm then Some (slot, item) else find_equipped rest nm)"

definition unequip_item :: "Character \<Rightarrow> string option \<Rightarrow> bool outcome \<times> Character \<times> log_entry list" where
  "unequip_item c nm =
     (case inventory c of
        None \<Rightarrow> (Inl (Exception ''AttributeError''), c, [])
      | Some (items, equipped) \<Rightarrow>
          (case find_equipped equipped nm of
             None \<Rightarrow> (Inr False, c, [])
           | Some (slot, item) \<Rightarrow>
               let c1 = c\<lparr>inventory := Some (items, AList.update slot None equipped)\<rparr>
               in (Inr True, apply_item_bonuses c1 item False,
                   [Unequips (name c) (item_name item)])))"

definition equip_item :: "Character \<Rightarrow> string option \<Rightarrow> bool outcome \<times> Character \<times> log_entry list" where
  "equip_item c nm =
     (case inventory c of
        None \<Rightarrow> (Inl (Exception ''AttributeError''), c, [])
      | Some (items, equipped) \<Rightarrow>
          (case find_item_in_inventory items nm of
             Inl e \<Rightarrow> (Inl e, c, [])
           | Inr None \<Rightarrow> (Inr False, c, [Doesnt_have (name c) nm])
           | Inr (Some i) \<Rightarrow>
               let item = items ! i;
                   (c1, lg1) =
                     (case map_of equipped (item_type item) of
                        Some (Some old) \<Rightarrow>
                          (let (r, c', lg') = unequip_item c (Some (item_name old)) in (c', lg'))
                      | _ \<Rightarrow> (c, []));
                   c2 = c1\<lparr>inventory :=
                            map_option (\<lambda>(items1, eq1). (items1, AList.update (item_type item) (Some item) eq1))
                              (inventory c1)\<rparr>
               in (Inr True, apply_item_bonuses c2 item True, lg1 @ [Equips (name c) (the nm)])))"

definition use_item ::
  "Character \<Rightarrow> string option \<Rightarrow> rng \<Rightarrow> bool outcome \<times> Character \<times> log_entry list \<times> rng" where
  "use_item c nm g =
     (case inventory c of
        None \<Rightarrow> (Inl (Exception ''AttributeError''), c, [], g)
      | Some (items, equipped) \<Rightarrow>
          (case find_item_in_inventory items nm of
             Inl e \<Rightarrow> (Inl e, c, [], g)
           | Inr None \<Rightarrow> (Inr False, c, [], g)
           | Inr (Some i) \<Rightarrow>
               let item = items ! i
               in if item_type item \<noteq> ''consumable'' then (Inr False, c, [], g)
                  else
                    (case (case prop_healing item of
                             None \<Rightarrow> (Inr (c, []), g)
                           | Some dice \<Rightarrow>
                               (case roll_dice dice g of
                                  (Inl e, g1) \<Rightarrow> (Inl e, g1)
                                | (Inr healing, g1) \<Rightarrow>
                                    let old_hp = hp c;
                                        new_hp = min (max_hp c) (hp c + healing)
                                    in (Inr (c\<lparr>hp := new_hp\<rparr>,
                                             [Uses_and_heals (name c) (the nm) (new_hp - old_hp)]), g1)))
                     of
                       (Inl e, g1) \<Rightarrow> (Inl e, c, [], g1)
                     | (Inr (c1, lg), g1) \<Rightarrow>
                         let item' = item\<lparr>quantity := quantity item - 1\<rparr>;
                             items' = (if quantity item' \<le> 0 then take i items @ drop (Suc i) items
                                     else items[i := item'])
                         in (Inr True, c1\<lparr>inventory := Some (items', equipped)\<rparr>, lg, g1))))"

definition drop_item :: "Character \<Rightarrow> string option \<Rightarrow> bool outcome \<times> Character \<times> log_entry list" where
  "drop_item c nm =
     (case inventory c of
        None \<Rightarrow> (Inl (Exception ''AttributeError''), c, [])
      | Some (items, equipped) \<Rightarrow>
          (case find_item_in_inventory items nm of
             Inl e \<Rightarrow> (Inl e, c, [])
           | Inr None \<Rightarrow> (Inr False, c, [])
           | Inr (Some i) \<Rightarrow>
               (Inr True, c\<lparr>inventory := Some (take i items @ drop (Suc i) items, equipped)\<rparr>,
                [Drops (name c) (the nm)])))"

text \<open>Writing a mutated character back under its key and appending what was logged.\<close>

definition commit :: "string \<Rightarrow> Character \<Rightarrow> log_entry list \<Rightarrow> GameStateManager \<Rightarrow> GameStateManager" where
  "commit cid c lg gsm = (set_character cid c gsm)\<lparr>game_log := game_log gsm @ lg\<rparr>"

definition InventoryModule_process_action ::
  "Action \<Rightarrow> GameStateManager \<Rightarrow> rng \<Rightarrow> bool outcome \<times> GameStateManager \<times> rng" where
  "InventoryModule_process_action a gsm g =
     (let character_id = get_default (a_character_id a) ''player'';
          nm = a_item_name a
      in case get_character_by_id gsm character_id of
           None \<Rightarrow> (Inr False, gsm, g)
         | Some character \<Rightarrow>
             if a_type a = Some ''equip''
             then (let (r, c, lg) = equip_item character nm in (r, commit character_id c lg gsm, g))
             else if a_type a = Some ''unequip''
             then (let (r, c, lg) = unequip_item character nm in (r, commit character_id c lg gsm, g))
             else if a_type a = Some ''use_item''
             then (let (r, c, lg, g1) = use_item character nm g in (r, commit character_id c lg gsm, g1))
             else if a_type a = Some ''drop_item''
             then (let (r, c, lg) = drop_item character nm in (r, commit character_id c lg gsm, g))
             else (Inr False, gsm, g))"

section \<open>main.py: the registered modules\<close>

text \<open>
  What the modules share and own: the state manager, the movement module's
  \<^verbatim>\<open>movement_used\<close> dict and the random generator.
\<close>

record World =
  w_gsm :: GameStateManager
  w_movement_used :: movement_used
  w_random :: rng

text \<open>\<^verbatim>\<open>action_data.get('type') in [...]\<close>, the body of every \<^verbatim>\<open>can_handle\<close>.\<close>

definition type_in :: "string list \<Rightarrow> Action \<Rightarrow> bool" where
  "type_in types a = (case a_type a of None \<Rightarrow> False | Some t \<Rightarrow> t \<in> set types)"

definition MovementModule :: "(Action, World) GameModule" where
  "MovementModule =
     \<lparr>class_name = ''MovementModule'',
      can_handle = (\<lambda>a w. (Inr (type_in [''move'', ''dash''] a), w)),
      process_action = (\<lambda>a w.
        case MovementModule_process_action a (w_gsm w) (w_movement_used w) of
          (r, gsm', mu') \<Rightarrow> (Inr r, w\<lparr>w_gsm := gsm', w_movement_used := mu'\<rparr>))\<rparr>"

definition CombatModule :: "(Action, World) GameModule" where
  "CombatModule =
     \<lparr>class_name = ''CombatModule'',
      can_handle = (\<lambda>a w. (Inr (type_in [''attack'', ''start_combat''] a), w)),
      process_action = (\<lambda>a w.
        case CombatModule_process_action a (w_gsm w) (w_random w) of
          (r, gsm', g') \<Rightarrow> (Inr r, w\<lparr>w_gsm := gsm', w_random := g'\<rparr>))\<rparr>"

definition InventoryModule :: "(Action, World) GameModule" where
  "InventoryModule =
     \<lparr>class_name = ''InventoryModule'',
      can_handle = (\<lambda>a w. (Inr (type_in [''equip'', ''unequip'', ''use_item'', ''drop_item''] a), w)),
      process_action = (\<lambda>a w.
        case InventoryModule_process_action a (w_gsm w) (w_random w) of
          (r, gsm', g') \<Rightarrow> (r, w\<lparr>w_gsm := gsm', w_random := g'\<rparr>))\<rparr>"

definition SpellsModule :: "(Action, World) GameModule" where
  "SpellsModule =
     \<lparr>class_name = ''SpellsModule'',
      can_handle = (\<lambda>a w. (Inr (type_in [''cast_spell'', ''prepare_spell''] a), w)),
      process_action = (\<lambda>a w.
        case SpellsModule_process_action a (w_gsm w) (w_random w) of
          (r, gsm', g') \<Rightarrow> (r, w\<lparr>w_gsm := gsm', w_random := g'\<rparr>))\<rparr>"

text \<open>
  \<^verbatim>\<open>AIDMChatModule\<close>: its \<^verbatim>\<open>can_handle\<close> is the source's; its \<^verbatim>\<open>process_action\<close> talks
  to the narrative agent, an external collaborator, and is a parameter.
\<close>

definition AIDMChatModule ::
  "(Action \<Rightarrow> World \<Rightarrow> bool outcome \<times> World) \<Rightarrow> (Action, World) GameModule" where
  "AIDMChatModule chat =
     \<lparr>class_name = ''AIDMChatModule'',
      can_handle = (\<lambda>a w. (Inr (type_in [''chat_with_dm'', ''dm_narrate'', ''dm_response''] a), w)),
      process_action = chat\<rparr>"

text \<open>\<^verbatim>\<open>GameEngine._register_modules\<close>: the registration order.\<close>

definition registered_modules ::
  "(Action \<Rightarrow> World \<Rightarrow> bool outcome \<times> World) \<Rightarrow> (Action, World) GameModule list" where
  "registered_modules chat =
     [MovementModule, CombatModule, InventoryModule, SpellsModule, AIDMChatModule chat]"

section \<open>Building states\<close>

text \<open>
  \<^verbatim>\<open>Character.__init__\<close> on the path that ends in \<^verbatim>\<open>_initialize_defaults\<close>, taken
  when the stat provider has nothing for the character: fixed statistics by category,
  none of the attributes that the modules attach later.
\<close>

definition initialize_defaults :: "string \<Rightarrow> string \<Rightarrow> string \<Rightarrow> int \<times> int \<Rightarrow> Character" where
  "initialize_defaults cid nm ty pos =
     \<lparr>char_id = cid, name = nm, char_type = ty, position = pos,
      hp = (if ty = ''player'' then 20 else 10),
      max_hp = (if ty = ''player'' then 20 else 10),
      ac = (if ty = ''player'' then 15 else 12),
      attack_bonus = Some (if ty = ''player'' then 5 else 3),
      initiative = 0, dexterity = Some 12, race_stats_speed = None, dashed_this_turn = False,
      spells = None, temp_ac_bonus = None, inventory = None,
      equipment_attack_bonus = None, equipment_ac_bonus = None\<rparr>"

text \<open>
  \<^verbatim>\<open>add_character\<close>: \<^verbatim>\<open>self.characters[char_id] = Character(...)\<close>, a dict store,
  which overwrites an existing key in place and appends a new one.
\<close>

definition add_character ::
  "string \<Rightarrow> string \<Rightarrow> string \<Rightarrow> int \<times> int \<Rightarrow> GameStateManager \<Rightarrow> GameStateManager" where
  "add_character cid nm ty pos gsm =
     gsm\<lparr>characters := AList.update cid (initialize_defaults cid nm ty pos) (characters gsm)\<rparr>"

text \<open>
  Two goblins added on the same square and a player elsewhere; \<^verbatim>\<open>add_character\<close>
  checks no occupancy.
\<close>

definition crowded :: GameStateManager where
  "crowded = add_character ''c'' ''C'' ''player'' (5, 5)
               (add_character ''b'' ''B'' ''monster'' (0, 0)
                 (add_character ''a'' ''A'' ''monster'' (0, 0) new_game))"

text \<open>A player next to one goblin, on the default 10 by 10 map.\<close>

definition duel :: GameStateManager where
  "duel = add_character ''goblin_1'' ''Goblin 1'' ''monster'' (4, 4)
            (add_character ''player'' ''Hero'' ''player'' (4, 5) new_game)"

text \<open>
  The player of \<open>duel\<close> as a caster: 5 of 20 hit points, knowing \<^verbatim>\<open>cure_wounds\<close>, with one
  level-1 slot and none used. The slot tables have the five levels the spells module
  creates.
\<close>

definition healer :: GameStateManager where
  "healer =
     set_character ''player''
       ((initialize_defaults ''player'' ''Hero'' ''player'' (4, 5))
          \<lparr>hp := 5,
           spells := Some ([''cure_wounds''],
                           [(1, 1), (2, 0), (3, 0), (4, 0), (5, 0)],
                           [(1, 0), (2, 0), (3, 0), (4, 0), (5, 0)])\<rparr>)
       duel"

text \<open>
  Two of the items \<^verbatim>\<open>_give_starting_equipment\<close> hands out, and the player of \<open>duel\<close>
  at 5 of 20 hit points carrying them with nothing equipped.
\<close>

definition longsword :: Item where
  "longsword =
     \<lparr>item_name = ''Longsword'', item_type = ''weapon'', quantity = 1,
      prop_healing = None, prop_attack_bonus = Some 0, prop_ac_bonus = None\<rparr>"

definition healing_potion :: Item where
  "healing_potion =
     \<lparr>item_name = ''Healing Potion'', item_type = ''consumable'', quantity = 2,
      prop_healing = Some ''2d4+2'', prop_attack_bonus = None, prop_ac_bonus = None\<rparr>"

definition stocked :: GameStateManager where
  "stocked =
     set_character ''player''
       ((initialize_defaults ''player'' ''Hero'' ''player'' (4, 5))
          \<lparr>hp := 5,
           inventory := Some ([longsword, healing_potion],
                              [(''weapon'', None), (''armor'', None), (''shield'', None)])\<rparr>)
       duel"

text \<open>A player alone on the map, one square from the origin on each axis.\<close>

definition lone_player :: GameStateManager where
  "lone_player = add_character ''player'' ''Hero'' ''player'' (1, 1) new_game"

text \<open>
  The world right after the modules are constructed around a state manager: no movement
  used, and a generator with no draws fixed. A narrative agent that answers at once.
\<close>

definition world :: "GameStateManager \<Rightarrow> World" where
  "world gsm = \<lparr>w_gsm = gsm, w_movement_used = [], w_random = []\<rparr>"

definition silent_chat :: "Action \<Rightarrow> World \<Rightarrow> bool outcome \<times> World" where
  "silent_chat a w = (Inr True, w)"

text \<open>An action dict with only a \<^verbatim>\<open>type\<close> key.\<close>

definition action_of_type :: "string \<Rightarrow> Action" where
  "action_of_type ty =
     \<lparr>a_type = Some ty, a_character_id = None, a_position = None, a_attacker_id = None,
      a_target_id = None, a_spell_name = None, a_item_name = None\<rparr>"

section \<open>The hit-point invariant\<close>

text \<open>Every character has \<open>0 \<le> hp \<le> max_hp\<close>.\<close>

definition hp_in_range :: "Character \<Rightarrow> bool" where
  "hp_in_range c \<longleftrightarrow> 0 \<le> hp c \<and> hp c \<le> max_hp c"

definition hp_invariant :: "GameStateManager \<Rightarrow> bool" where
  "hp_invariant gsm \<longleftrightarrow> list_all (\<lambda>(k, c). hp_in_range c) (characters gsm)"

section \<open>Properties of the router\<close>

lemma route_loop_append:
  "route_loop (pre @ post) a s lg =
     (case route_loop pre a s lg of
        (None, s1, lg1) \<Rightarrow> route_loop post a s1 lg1
      | (Some r, s1, lg1) \<Rightarrow> (Some r, s1, lg1))"
  by (induction pre arbitrary: s lg)
     (auto split: prod.splits sum.splits bool.splits exn.splits option.splits)

lemma first_claims_after_loop:
  "first_claims_after pre a s = Some s1 \<Longrightarrow> route_loop pre a s lg = (None, s1, lg)"
  by (induction pre arbitrary: s)
     (auto split: prod.splits sum.splits bool.splits)

text \<open>
  Claim C1, as the specification states it: when the first module that claims an action
  has \<^verbatim>\<open>process_action\<close> return false, routing stops, the action is reported failed and
  no later module's \<^verbatim>\<open>process_action\<close> runs. The code does not do this. Here the first
  claiming module returns false; the second module's body still runs (the state records
  it) and the router returns true.
\<close>

theorem C1_router_goes_on_after_false_counterexample:
  "ModuleManager_process_action [rejecting_module, accepting_module] ''attack'' [] []
     = (Inr True, [''Rejecting'', ''Accepting''], [Info_processed_by ''Accepting''])"
  by (simp add: ModuleManager_process_action_def rejecting_module_def accepting_module_def)

text \<open>
  Claim C1, amended to what the loop does: when the first module that claims an action
  has \<^verbatim>\<open>process_action\<close> return false without raising, routing goes on with the modules
  registered after it. The router's result is the result of routing the action over
  those remaining modules, from the state the rejecting module left and with nothing
  logged for it.
\<close>

theorem C1_router_goes_on_after_false:
  assumes "first_claims_after pre a s = Some s1"
      and "can_handle m a s1 = (Inr True, s2)"
      and "process_action m a s2 = (Inr False, s3)"
  shows "ModuleManager_process_action (pre @ m # post) a s lg
           = ModuleManager_process_action post a s3 lg"
  using assms
  by (simp add: ModuleManager_process_action_def route_loop_append first_claims_after_loop)

theorem C1_router_goes_on_after_false_witness:
  "first_claims_after [declining_module] ''attack'' [] = Some []
   \<and> can_handle rejecting_module ''attack'' [] = (Inr True, [])
   \<and> process_action rejecting_module ''attack'' [] = (Inr False, [''Rejecting''])
   \<and> ModuleManager_process_action ([declining_module] @ rejecting_module # [accepting_module])
         ''attack'' [] []
       = ModuleManager_process_action [accepting_module] ''attack'' [''Rejecting''] []"
proof -
  have h1: "first_claims_after [declining_module] ''attack'' [] = Some []"
    by (simp add: declining_module_def)
  have h2: "can_handle rejecting_module ''attack'' [] = (Inr True, [])"
    by (simp add: rejecting_module_def)
  have h3: "process_action rejecting_module ''attack'' [] = (Inr False, [''Rejecting''])"
    by (simp add: rejecting_module_def)
  show ?thesis
    using C1_router_goes_on_after_false [OF h1 h2 h3, of "[accepting_module]" "[]"] h1 h2 h3
    by simp
qed

lemma route_loop_safe:
  assumes "\<forall>m \<in> set ms. \<forall>s. \<exists>b s'. can_handle m a s = (Inr b, s')
             \<and> (b \<longrightarrow> (\<forall>c s''. process_action m a s' \<noteq> (Inl (BaseException c), s'')))"
  shows "\<exists>s' lg'. route_loop ms a s lg = (None, s', lg') \<or> route_loop ms a s lg = (Some (Inr True), s', lg')"
  using assms
proof (induction ms arbitrary: s lg)
  case Nil
  show ?case by simp
next
  case (Cons m ms)
  from Cons.prems obtain b s1 where ch: "can_handle m a s = (Inr b, s1)"
    and pr: "b \<longrightarrow> (\<forall>c s''. process_action m a s1 \<noteq> (Inl (BaseException c), s''))"
    by (meson list.set_intros(1))
  have rest: "\<exists>s' lg'. route_loop ms a t l = (None, s', lg') \<or> route_loop ms a t l = (Some (Inr True), s', lg')"
    for t l
    using Cons.IH [of t l] Cons.prems by simp
  show ?case
  proof (cases b)
    case False
    then show ?thesis using ch rest [of s1 lg] by simp
  next
    case True
    obtain r s2 where p: "process_action m a s1 = (r, s2)" by (cases "process_action m a s1")
    show ?thesis
    proof (cases r)
      case (Inr v)
      then show ?thesis using ch True p rest [of s2 lg] by (cases v) simp_all
    next
      case (Inl e)
      show ?thesis
      proof (cases e)
        case (Exception c)
        then show ?thesis
          using ch True p Inl rest [of s2 "lg @ [Error_in (class_name m) (Exception c)]"] by simp
      next
        case (BaseException c)
        then show ?thesis using pr True p Inl by simp
      qed
    qed
  qed
qed

lemma router_returns_when_safe:
  assumes "\<forall>m \<in> set ms. \<forall>s. \<exists>b s'. can_handle m a s = (Inr b, s')
             \<and> (b \<longrightarrow> (\<forall>c s''. process_action m a s' \<noteq> (Inl (BaseException c), s'')))"
  shows "\<exists>b s' lg'. ModuleManager_process_action ms a s lg = (Inr b, s', lg')"
  using route_loop_safe [OF assms, of s lg]
  by (auto simp: ModuleManager_process_action_def)

text \<open>
  Claim C2, as the specification states it: an exception raised by a module's
  \<^verbatim>\<open>process\<close> never reaches the router's caller, and a later module that claims the
  action has its result returned. The handler is \<^verbatim>\<open>except Exception\<close>. In the first
  run a module is interrupted (\<^verbatim>\<open>KeyboardInterrupt\<close>): the exception is the router's
  outcome, nothing is logged and the module registered after it never runs. In the second
  run the module after the raising one claims the action and returns false; the router
  goes on to a third module and returns true, not that module's false.
\<close>

theorem C2_only_Exception_is_isolated_counterexample:
  "ModuleManager_process_action [interrupting_module, accepting_module] ''attack'' [] []
     = (Inl (BaseException ''KeyboardInterrupt''), [''Interrupting''], [])
   \<and> ModuleManager_process_action [raising_module, rejecting_module, accepting_module] ''attack'' [] []
     = (Inr True, [''Raising'', ''Rejecting'', ''Accepting''],
        [Error_in ''Raising'' (Exception ''KeyError''), Info_processed_by ''Accepting''])"
  by (simp add: ModuleManager_process_action_def interrupting_module_def accepting_module_def
        raising_module_def rejecting_module_def)

text \<open>
  Claim C2, amended to the handler the code has. Let the loop reach a module \<open>m\<close> that
  claims the action.
  \<^item> When \<open>m\<close>'s \<^verbatim>\<open>process_action\<close> raises an instance of \<^verbatim>\<open>Exception\<close>, the router logs one
    error record and goes on with the remaining modules in registration order: its
    result is the result of routing over those modules. With no module left the
    router logs the warning and returns false. The next module that claims the action
    has its \<^verbatim>\<open>process_action\<close> run: true from it is returned at once, false lets the
    scan go on as for any module.
  \<^item> When it raises anything else (\<^verbatim>\<open>KeyboardInterrupt\<close>, \<^verbatim>\<open>SystemExit\<close>), that is the
    router's outcome: it reaches the caller, nothing is logged and no later module is
    consulted.
  \<^item> An \<^verbatim>\<open>Exception\<close> raised by \<^verbatim>\<open>process_action\<close> never reaches the caller: over any
    module list in which no \<^verbatim>\<open>can_handle\<close> raises and no claiming module's
    \<^verbatim>\<open>process_action\<close> raises anything outside \<^verbatim>\<open>Exception\<close>, the router returns a
    Boolean.
\<close>

theorem C2_router_isolates_Exception_only:
  assumes reach: "route_loop pre a s lg = (None, s1, lg1)"
      and claim: "can_handle m a s1 = (Inr True, s2)"
  shows "(process_action m a s2 = (Inl (Exception c), s3) \<longrightarrow>
            ModuleManager_process_action (pre @ m # post) a s lg
              = ModuleManager_process_action post a s3 (lg1 @ [Error_in (class_name m) (Exception c)])
          \<and> ModuleManager_process_action (pre @ [m]) a s lg
              = (Inr False, s3, lg1 @ [Error_in (class_name m) (Exception c), Warning_no_module a])
          \<and> (first_claims_after skip a s3 = Some s4
               \<and> can_handle m' a s4 = (Inr True, s5) \<and> process_action m' a s5 = (Inr b, s6)
               \<longrightarrow> ModuleManager_process_action (pre @ m # skip @ m' # rest) a s lg
                     = (if b then (Inr True, s6, lg1 @ [Error_in (class_name m) (Exception c),
                                                        Info_processed_by (class_name m')])
                        else ModuleManager_process_action rest a s6
                               (lg1 @ [Error_in (class_name m) (Exception c)]))))
       \<and> (process_action m a s2 = (Inl (BaseException c), s3) \<longrightarrow>
            ModuleManager_process_action (pre @ m # post) a s lg = (Inl (BaseException c), s3, lg1))
       \<and> ((\<forall>m0 \<in> set ms. \<forall>t. \<exists>b0 t'. can_handle m0 a t = (Inr b0, t')
               \<and> (b0 \<longrightarrow> (\<forall>c0 t''. process_action m0 a t' \<noteq> (Inl (BaseException c0), t''))))
            \<longrightarrow> (\<exists>b0 t' lg'. ModuleManager_process_action ms a t0 lg0 = (Inr b0, t', lg')))"
proof -
  have p1: "process_action m a s2 = (Inl (Exception c), s3) \<longrightarrow>
            ModuleManager_process_action (pre @ m # post) a s lg
              = ModuleManager_process_action post a s3 (lg1 @ [Error_in (class_name m) (Exception c)])"
    using reach claim by (simp add: ModuleManager_process_action_def route_loop_append)
  have p2: "process_action m a s2 = (Inl (Exception c), s3) \<longrightarrow>
            ModuleManager_process_action (pre @ [m]) a s lg
              = (Inr False, s3, lg1 @ [Error_in (class_name m) (Exception c), Warning_no_module a])"
    using reach claim by (simp add: ModuleManager_process_action_def route_loop_append)
  have p3: "process_action m a s2 = (Inl (Exception c), s3) \<longrightarrow>
            (first_claims_after skip a s3 = Some s4
               \<and> can_handle m' a s4 = (Inr True, s5) \<and> process_action m' a s5 = (Inr b, s6)
               \<longrightarrow> ModuleManager_process_action (pre @ m # skip @ m' # rest) a s lg
                     = (if b then (Inr True, s6, lg1 @ [Error_in (class_name m) (Exception c),
                                                        Info_processed_by (class_name m')])
                        else ModuleManager_process_action rest a s6
                               (lg1 @ [Error_in (class_name m) (Exception c)])))"
    using reach claim
    by (auto simp: ModuleManager_process_action_def route_loop_append first_claims_after_loop)
  have p4: "process_action m a s2 = (Inl (BaseException c), s3) \<longrightarrow>
            ModuleManager_process_action (pre @ m # post) a s lg = (Inl (BaseException c), s3, lg1)"
    using reach claim by (simp add: ModuleManager_process_action_def route_loop_append)
  have p5: "(\<forall>m0 \<in> set ms. \<forall>t. \<exists>b0 t'. can_handle m0 a t = (Inr b0, t')
               \<and> (b0 \<longrightarrow> (\<forall>c0 t''. process_action m0 a t' \<noteq> (Inl (BaseException c0), t''))))
            \<longrightarrow> (\<exists>b0 t' lg'. ModuleManager_process_action ms a t0 lg0 = (Inr b0, t', lg'))"
    using router_returns_when_safe [of ms a t0 lg0] by blast
  show ?thesis using p1 p2 p3 p4 p5 by blast
qed

theorem C2_router_isolates_Exception_only_witness:
  "route_loop [rejecting_module] ''attack'' [] [] = (None, [''Rejecting''], [])
   \<and> can_handle raising_module ''attack'' [''Rejecting''] = (Inr True, [''Rejecting''])
   \<and> process_action raising_module ''attack'' [''Rejecting'']
       = (Inl (Exception ''KeyError''), [''Rejecting'', ''Raising''])
   \<and> ModuleManager_process_action ([rejecting_module] @ [raising_module]) ''attack'' [] []
       = (Inr False, [''Rejecting'', ''Raising''],
          [Error_in ''Raising'' (Exception ''KeyError''), Warning_no_module ''attack''])
   \<and> ModuleManager_process_action
        ([rejecting_module] @ raising_module # [declining_module] @ accepting_module # [])
        ''attack'' [] []
       = (Inr True, [''Rejecting'', ''Raising'', ''Accepting''],
          [Error_in ''Raising'' (Exception ''KeyError''), Info_processed_by ''Accepting''])
   \<and> process_action interrupting_module ''attack'' [''Rejecting'']
       = (Inl (BaseException ''KeyboardInterrupt''), [''Rejecting'', ''Interrupting''])
   \<and> ModuleManager_process_action ([rejecting_module] @ interrupting_module # [accepting_module])
        ''attack'' [] []
       = (Inl (BaseException ''KeyboardInterrupt''), [''Rejecting'', ''Interrupting''], [])
   \<and> (\<exists>b t lg. ModuleManager_process_action [raising_module, rejecting_module] ''attack'' [] []
                   = (Inr b, t, lg))"
proof -
  have h1: "route_loop [rejecting_module] ''attack'' [] [] = (None, [''Rejecting''], [])"
    by (simp add: rejecting_module_def)
  have h2: "can_handle raising_module ''attack'' [''Rejecting''] = (Inr True, [''Rejecting''])"
    by (simp add: raising_module_def)
  have h3: "process_action raising_module ''attack'' [''Rejecting'']
              = (Inl (Exception ''KeyError''), [''Rejecting'', ''Raising''])"
    by (simp add: raising_module_def)
  have h4: "first_claims_after [declining_module] ''attack'' [''Rejecting'', ''Raising'']
              = Some [''Rejecting'', ''Raising'']"
    by (simp add: declining_module_def)
  have h5: "can_handle accepting_module ''attack'' [''Rejecting'', ''Raising'']
              = (Inr True, [''Rejecting'', ''Raising''])"
    by (simp add: accepting_module_def)
  have h6: "process_action accepting_module ''attack'' [''Rejecting'', ''Raising'']
              = (Inr True, [''Rejecting'', ''Raising'', ''Accepting''])"
    by (simp add: accepting_module_def)
  have h7: "can_handle interrupting_module ''attack'' [''Rejecting''] = (Inr True, [''Rejecting''])"
    by (simp add: interrupting_module_def)
  have h8: "process_action interrupting_module ''attack'' [''Rejecting'']
              = (Inl (BaseException ''KeyboardInterrupt''), [''Rejecting'', ''Interrupting''])"
    by (simp add: interrupting_module_def)
  have h9: "\<forall>m0 \<in> set [raising_module, rejecting_module]. \<forall>t. \<exists>b0 t'.
              can_handle m0 ''attack'' t = (Inr b0, t')
              \<and> (b0 \<longrightarrow> (\<forall>c0 t''. process_action m0 ''attack'' t' \<noteq> (Inl (BaseException c0), t'')))"
    by (auto simp: raising_module_def rejecting_module_def)
  have n: "class_name raising_module = ''Raising''" "class_name accepting_module = ''Accepting''"
    by (simp_all add: raising_module_def accepting_module_def)
  note caught =
    C2_router_isolates_Exception_only [OF h1 h2,
      where skip = "[declining_module]" and m' = accepting_module and rest = "[]",
      THEN conjunct1, THEN mp, OF h3]
  have t1: "ModuleManager_process_action ([rejecting_module] @ [raising_module]) ''attack'' [] []
              = (Inr False, [''Rejecting'', ''Raising''],
                 [Error_in ''Raising'' (Exception ''KeyError''), Warning_no_module ''attack''])"
    using caught [THEN conjunct2, THEN conjunct1] by (simp add: n)
  have t2: "ModuleManager_process_action
              ([rejecting_module] @ raising_module # [declining_module] @ accepting_module # [])
              ''attack'' [] []
            = (Inr True, [''Rejecting'', ''Raising'', ''Accepting''],
               [Error_in ''Raising'' (Exception ''KeyError''), Info_processed_by ''Accepting''])"
    using caught [THEN conjunct2, THEN conjunct2, THEN mp, OF conjI [OF h4 conjI [OF h5 h6]]]
    by (simp add: n)
  have t3: "ModuleManager_process_action ([rejecting_module] @ interrupting_module # [accepting_module])
              ''attack'' [] []
            = (Inl (BaseException ''KeyboardInterrupt''), [''Rejecting'', ''Interrupting''], [])"
    using C2_router_isolates_Exception_only [OF h1 h7, where post = "[accepting_module]",
            THEN conjunct2, THEN conjunct1, THEN mp, OF h8]
    by simp
  have t4: "\<exists>b t lg. ModuleManager_process_action [raising_module, rejecting_module] ''attack'' [] []
                       = (Inr b, t, lg)"
    using C2_router_isolates_Exception_only [OF h1 h2,
            where ms = "[raising_module, rejecting_module]" and ?t0.0 = "[]" and ?lg0.0 = "[]",
            THEN conjunct2, THEN conjunct2, THEN mp, OF h9]
    by simp
  show ?thesis
    by (intro conjI) (rule h1 h2 h3 t1 t2 h8 t3 t4)+
qed

text \<open>
  Claim C10: \<^verbatim>\<open>can_handle\<close> is called outside the \<^verbatim>\<open>try\<close>. When the loop reaches a
  module whose \<^verbatim>\<open>can_handle\<close> raises, that exception is the outcome of
  \<^verbatim>\<open>ModuleManager.process_action\<close>, whatever its class, and nothing is logged for it. The
  outcome and the state are the same for every list \<open>post\<close> of modules registered after
  it: none of them is consulted.
\<close>

theorem C10_router_propagates_can_handle_exception:
  assumes "route_loop pre a s lg = (None, s1, lg1)"
      and "can_handle m a s1 = (Inl e, s2)"
  shows "ModuleManager_process_action (pre @ m # post) a s lg = (Inl e, s2, lg1)"
  using assms
  by (simp add: ModuleManager_process_action_def route_loop_append)

theorem C10_router_propagates_can_handle_exception_witness:
  "route_loop [rejecting_module] ''attack'' [] [] = (None, [''Rejecting''], [])
   \<and> can_handle unclaimable_module ''attack'' [''Rejecting'']
       = (Inl (Exception ''AttributeError''), [''Rejecting''])
   \<and> ModuleManager_process_action ([rejecting_module] @ unclaimable_module # [accepting_module])
        ''attack'' [] []
       = (Inl (Exception ''AttributeError''), [''Rejecting''], [])"
proof -
  have h1: "route_loop [rejecting_module] ''attack'' [] [] = (None, [''Rejecting''], [])"
    by (simp add: rejecting_module_def)
  have h2: "can_handle unclaimable_module ''attack'' [''Rejecting'']
              = (Inl (Exception ''AttributeError''), [''Rejecting''])"
    by (simp add: unclaimable_module_def)
  show ?thesis
    using C10_router_propagates_can_handle_exception [OF h1 h2, of "[accepting_module]"] h1 h2
    by simp
qed

section \<open>Properties of the state store\<close>

lemma map_of_set_entry:
  "map_of (map (\<lambda>(k, v). if k = cid then (k, c) else (k, v)) cs) k' =
     (if k' = cid then map_option (\<lambda>_. c) (map_of cs k') else map_of cs k')"
  by (induction cs) auto

lemma get_set_character:
  "get_character_by_id (set_character cid c gsm) k =
     (if k = cid then map_option (\<lambda>_. c) (get_character_by_id gsm k)
      else get_character_by_id gsm k)"
  by (simp add: get_character_by_id_def set_character_def map_of_set_entry)

lemma get_add_to_log [simp]:
  "get_character_by_id (add_to_log e gsm) k = get_character_by_id gsm k"
  by (simp add: get_character_by_id_def add_to_log_def)

lemma game_log_set_character [simp]:
  "game_log (set_character cid c gsm) = game_log gsm"
  by (simp add: set_character_def)

lemma game_log_add_to_log [simp]:
  "game_log (add_to_log e gsm) = game_log gsm @ [e]"
  by (simp add: add_to_log_def)

lemma draw_range:
  assumes "a \<le> b"
  shows "a \<le> fst (draw a b g) \<and> fst (draw a b g) \<le> b"
proof (cases g)
  case Nil
  with assms show ?thesis by (simp add: draw_def)
next
  case (Cons r g')
  have pos: "0 < b - a + 1" using assms by simp
  have lo: "0 \<le> int r mod (b - a + 1)"
    using pos by (rule pos_mod_sign)
  have "int r mod (b - a + 1) < b - a + 1"
    using pos by (rule pos_mod_bound)
  then have hi: "int r mod (b - a + 1) \<le> b - a" by linarith
  from Cons lo hi show ?thesis by (simp add: draw_def)
qed

lemma occupied_by_other_iff:
  "occupied_by_other cs cid p \<longleftrightarrow> (\<exists>c \<in> set cs. char_id c \<noteq> cid \<and> position c = p)"
  by (induction cs) auto

lemma wf_lookup:
  "wf_characters cs \<Longrightarrow> (k, c) \<in> set cs \<longleftrightarrow> map_of cs k = Some c"
  by (auto simp: wf_characters_def)

lemma wf_char_id:
  "wf_characters cs \<Longrightarrow> map_of cs k = Some c \<Longrightarrow> char_id c = k"
  by (auto simp: wf_characters_def list_all_iff dest!: map_of_SomeD)

lemma occupied_wf:
  assumes "wf_characters cs"
  shows "occupied_by_other (map snd cs) cid p
           \<longleftrightarrow> (\<exists>k c. k \<noteq> cid \<and> map_of cs k = Some c \<and> position c = p)"
proof
  assume "occupied_by_other (map snd cs) cid p"
  then obtain k c where kc: "(k, c) \<in> set cs" "char_id c \<noteq> cid" "position c = p"
    by (auto simp: occupied_by_other_iff)
  have "map_of cs k = Some c" using assms kc(1) by (simp add: wf_lookup)
  moreover have "char_id c = k" using assms \<open>map_of cs k = Some c\<close> by (rule wf_char_id)
  ultimately show "\<exists>k c. k \<noteq> cid \<and> map_of cs k = Some c \<and> position c = p"
    using kc by blast
next
  assume "\<exists>k c. k \<noteq> cid \<and> map_of cs k = Some c \<and> position c = p"
  then obtain k c where kc: "k \<noteq> cid" "map_of cs k = Some c" "position c = p" by blast
  have "char_id c = k" using assms kc(2) by (rule wf_char_id)
  moreover have "c \<in> set (map snd cs)" using kc(2) by (force dest: map_of_SomeD)
  ultimately show "occupied_by_other (map snd cs) cid p"
    using kc by (auto simp: occupied_by_other_iff)
qed

lemma characters_add_to_log [simp]: "characters (add_to_log e gsm) = characters gsm"
  by (simp add: add_to_log_def)

lemma positions_after_set_entry:
  "map (\<lambda>e. position (snd e)) (map (\<lambda>(k, v). if k = cid then (k, c) else (k, v)) cs)
     = map (\<lambda>(k, v). if k = cid then position c else position v) cs"
  by (induction cs) auto

lemma distinct_positions_replace:
  assumes "distinct (map fst cs)"
      and "distinct (map (\<lambda>e. position (snd e)) cs)"
      and "\<forall>(k, v) \<in> set cs. k \<noteq> cid \<longrightarrow> position v \<noteq> q"
  shows "distinct (map (\<lambda>(k, v). if k = cid then q else position v) cs)"
  using assms
proof (induction cs)
  case Nil
  then show ?case by simp
next
  case (Cons e cs)
  obtain k v where e: "e = (k, v)" by (cases e)
  have IH: "distinct (map (\<lambda>(k, v). if k = cid then q else position v) cs)"
    using Cons by simp
  have fresh: "(if k = cid then q else position v)
                 \<notin> (\<lambda>(k, v). if k = cid then q else position v) ` set cs"
  proof
    assume "(if k = cid then q else position v)
              \<in> (\<lambda>(k, v). if k = cid then q else position v) ` set cs"
    then obtain k' v' where kv': "(k', v') \<in> set cs"
        "(if k = cid then q else position v) = (if k' = cid then q else position v')"
      by auto
    have k'k: "k' \<noteq> k" using Cons.prems(1) e kv'(1) by force
    have pv: "position v' \<noteq> position v" using Cons.prems(2) e kv'(1) by force
    show False
    proof (cases "k = cid")
      case True
      then have "k' \<noteq> cid" using k'k by simp
      moreover from this have "position v' \<noteq> q" using Cons.prems(3) kv'(1) by auto
      ultimately show False using kv'(2) True by simp
    next
      case False
      then have "position v \<noteq> q" using Cons.prems(3) e by simp
      then show False using kv'(2) False pv by (simp split: if_splits)
    qed
  qed
  show ?case using e IH fresh by simp
qed

lemma distinct_positions_set_entry:
  assumes "distinct (map fst cs)"
      and "distinct (map (\<lambda>e. position (snd e)) cs)"
      and "\<forall>(k, v) \<in> set cs. k \<noteq> cid \<longrightarrow> position v \<noteq> position c"
  shows "distinct (map (\<lambda>e. position (snd e)) (map (\<lambda>(k, v). if k = cid then (k, c) else (k, v)) cs))"
  unfolding positions_after_set_entry
  using assms by (rule distinct_positions_replace)

lemmas eval_defs =
  add_character_def new_game_def initialize_defaults_def get_character_by_id_def
  set_character_def add_to_log_def map_width_def map_height_def

lemma duel_lookup:
  "get_character_by_id duel ''player'' = Some (initialize_defaults ''player'' ''Hero'' ''player'' (4, 5))"
  "get_character_by_id duel ''goblin_1''
     = Some (initialize_defaults ''goblin_1'' ''Goblin 1'' ''monster'' (4, 4))"
  by (simp_all add: duel_def add_character_def new_game_def get_character_by_id_def)

lemma duel_wf: "wf_characters (characters duel)"
  by (simp add: duel_def add_character_def new_game_def wf_characters_def initialize_defaults_def)

text \<open>
  Claim C4, as the specification states it, ends: no two distinct characters ever hold
  the same position after a successful \<^verbatim>\<open>move_character\<close> call. The call looks only at
  the destination. Here two goblins were added on the same square; a third character
  moves successfully and the two goblins still share their square.
\<close>

theorem C4_move_character_leaves_others_counterexample:
  "fst (move_character ''c'' (6, 6) crowded) = True
   \<and> map_option position (get_character_by_id (snd (move_character ''c'' (6, 6) crowded)) ''a'') = Some (0, 0)
   \<and> map_option position (get_character_by_id (snd (move_character ''c'' (6, 6) crowded)) ''b'') = Some (0, 0)"
  by (simp add: move_character_def crowded_def add_character_def new_game_def
        initialize_defaults_def get_character_by_id_def set_character_def add_to_log_def
        map_width_def map_height_def Let_def)

text \<open>
  Claim C4, amended in its last part. For a character present in the state,
  \<^verbatim>\<open>move_character\<close> returns true exactly when the destination is inside the map
  (width and height default to 10) and no other character stands on it. On success the
  character's position is the destination, one log entry is appended, no other
  character stands on the mover's new square, and if no two characters shared a square
  before the call then none do after it. On failure the state is unchanged.
\<close>

theorem C4_move_character:
  assumes wf: "wf_characters (characters gsm)"
      and c: "get_character_by_id gsm cid = Some c"
  shows "(fst (move_character cid p gsm) \<longleftrightarrow>
            0 \<le> fst p \<and> fst p < map_width gsm \<and> 0 \<le> snd p \<and> snd p < map_height gsm
            \<and> \<not> (\<exists>k other. k \<noteq> cid \<and> get_character_by_id gsm k = Some other \<and> position other = p))
       \<and> (fst (move_character cid p gsm) \<longrightarrow>
            get_character_by_id (snd (move_character cid p gsm)) cid = Some (c\<lparr>position := p\<rparr>)
            \<and> game_log (snd (move_character cid p gsm)) = game_log gsm @ [Moves (name c) (position c) p]
            \<and> (\<forall>k other. k \<noteq> cid \<and> get_character_by_id (snd (move_character cid p gsm)) k = Some other
                  \<longrightarrow> position other \<noteq> p)
            \<and> (distinct (map (\<lambda>e. position (snd e)) (characters gsm))
                  \<longrightarrow> distinct (map (\<lambda>e. position (snd e)) (characters (snd (move_character cid p gsm))))))
       \<and> (\<not> fst (move_character cid p gsm) \<longrightarrow> snd (move_character cid p gsm) = gsm)"
proof -
  let ?inb = "0 \<le> fst p \<and> fst p < map_width gsm \<and> 0 \<le> snd p \<and> snd p < map_height gsm"
  let ?occ = "\<exists>k other. k \<noteq> cid \<and> get_character_by_id gsm k = Some other \<and> position other = p"
  have occ: "occupied_by_other (map snd (characters gsm)) cid p \<longleftrightarrow> ?occ"
    using occupied_wf [OF wf] by (simp add: get_character_by_id_def)
  show ?thesis
  proof (cases "?inb \<and> \<not> ?occ")
    case False
    then show ?thesis using c occ by (auto simp: move_character_def)
  next
    case True
    let ?c' = "c\<lparr>position := p\<rparr>"
    have res: "move_character cid p gsm
                 = (True, add_to_log (Moves (name c) (position c) p) (set_character cid ?c' gsm))"
      using True c occ by (simp add: move_character_def Let_def)
    have others: "\<forall>(k, v) \<in> set (characters gsm). k \<noteq> cid \<longrightarrow> position v \<noteq> position ?c'"
      using True wf by (auto simp: wf_lookup get_character_by_id_def)
    have d: "distinct (map (\<lambda>e. position (snd e)) (characters gsm))
          \<Longrightarrow> distinct (map (\<lambda>e. position (snd e)) (characters (set_character cid ?c' gsm)))"
      using distinct_positions_set_entry [OF _ _ others] wf
      by (simp add: set_character_def wf_characters_def)
    have g1: "get_character_by_id (snd (move_character cid p gsm)) cid = Some ?c'"
      using c by (simp add: res get_set_character)
    have g2: "game_log (snd (move_character cid p gsm)) = game_log gsm @ [Moves (name c) (position c) p]"
      by (simp add: res)
    have g3: "\<forall>k other. k \<noteq> cid \<and> get_character_by_id (snd (move_character cid p gsm)) k = Some other
                  \<longrightarrow> position other \<noteq> p"
      using True by (auto simp: res get_set_character)
    have g4: "distinct (map (\<lambda>e. position (snd e)) (characters gsm))
                  \<longrightarrow> distinct (map (\<lambda>e. position (snd e)) (characters (snd (move_character cid p gsm))))"
      using d by (simp add: res)
    have g0: "fst (move_character cid p gsm)" by (simp add: res)
    show ?thesis
      using True g0 g1 g2 g3 g4 by blast
  qed
qed

theorem C4_move_character_witness:
  "wf_characters (characters duel)
   \<and> get_character_by_id duel ''player''
       = Some (initialize_defaults ''player'' ''Hero'' ''player'' (4, 5))
   \<and> fst (move_character ''player'' (5, 5) duel)
   \<and> distinct (map (\<lambda>e. position (snd e)) (characters duel))
   \<and> distinct (map (\<lambda>e. position (snd e)) (characters (snd (move_character ''player'' (5, 5) duel))))
   \<and> \<not> fst (move_character ''player'' (4, 4) duel)
   \<and> snd (move_character ''player'' (4, 4) duel) = duel"
proof -
  note h1 = duel_wf
  note h2 = duel_lookup(1)
  have h3: "fst (move_character ''player'' (5, 5) duel)"
    by (simp add: move_character_def eval_defs duel_def)
  have h4: "distinct (map (\<lambda>e. position (snd e)) (characters duel))"
    by (simp add: duel_def add_character_def new_game_def initialize_defaults_def)
  have h5: "\<not> fst (move_character ''player'' (4, 4) duel)"
    by (simp add: move_character_def eval_defs duel_def)
  show ?thesis
    using C4_move_character [OF h1 h2, of "(5, 5)"] C4_move_character [OF h1 h2, of "(4, 4)"]
          h1 h2 h3 h4 h5
    by blast
qed

text \<open>
  Claim C5, as the specification states it, ends: the defeat line appears once, when hit
  points cross from positive to zero, and not on later damage to a character already at
  zero. The code tests \<^verbatim>\<open>character.hp <= 0\<close> after every application. Here the goblin
  (10 hit points) takes 10 damage and then 1 more: the defeat line is logged both times.
\<close>

theorem C5_defeat_logged_again_counterexample:
  "game_log (snd (apply_damage ''goblin_1'' 1 (snd (apply_damage ''goblin_1'' 10 duel))))
     = [Takes_damage ''Goblin 1'' 10 0 10, Is_defeated ''Goblin 1'',
        Takes_damage ''Goblin 1'' 1 0 10, Is_defeated ''Goblin 1'']"
  by (simp add: apply_damage_def duel_def add_character_def new_game_def
        initialize_defaults_def get_character_by_id_def set_character_def add_to_log_def Let_def)

text \<open>
  Claim C5, amended: for an existing character and a damage amount at least the
  character's current hit points, \<^verbatim>\<open>apply_damage\<close> (and the combat module's copy of it)
  returns true, leaves the hit points at exactly 0, and appends the damage line followed
  by one defeat line. This holds on every such call, also when the hit points were
  already 0.
\<close>

theorem C5_damage_to_zero_logs_defeat_each_time:
  assumes "get_character_by_id gsm cid = Some c" and "hp c \<le> d"
  shows "fst (apply_damage cid d gsm) = True
       \<and> map_option hp (get_character_by_id (snd (apply_damage cid d gsm)) cid) = Some 0
       \<and> game_log (snd (apply_damage cid d gsm))
           = game_log gsm @ [Takes_damage (name c) d 0 (max_hp c), Is_defeated (name c)]
       \<and> fst (CombatModule_apply_damage cid d gsm) = True
       \<and> map_option hp (get_character_by_id (snd (CombatModule_apply_damage cid d gsm)) cid) = Some 0
       \<and> game_log (snd (CombatModule_apply_damage cid d gsm))
           = game_log gsm @ [Takes_damage (name c) d 0 (max_hp c), Is_defeated (name c)]"
  using assms
  by (simp add: apply_damage_def CombatModule_apply_damage_def Let_def get_set_character max_def)

theorem C5_damage_to_zero_logs_defeat_each_time_witness:
  "get_character_by_id duel ''goblin_1''
     = Some (initialize_defaults ''goblin_1'' ''Goblin 1'' ''monster'' (4, 4))
   \<and> hp (initialize_defaults ''goblin_1'' ''Goblin 1'' ''monster'' (4, 4)) \<le> 12
   \<and> map_option hp (get_character_by_id (snd (apply_damage ''goblin_1'' 12 duel)) ''goblin_1'') = Some 0
   \<and> game_log (snd (apply_damage ''goblin_1'' 12 duel))
       = [Takes_damage ''Goblin 1'' 12 0 10, Is_defeated ''Goblin 1'']"
proof -
  note h1 = duel_lookup(2)
  have h2: "hp (initialize_defaults ''goblin_1'' ''Goblin 1'' ''monster'' (4, 4)) \<le> 12"
    by (simp add: initialize_defaults_def)
  have h3: "game_log duel = []"
    by (simp add: duel_def add_character_def new_game_def)
  show ?thesis
    using C5_damage_to_zero_logs_defeat_each_time [OF h1 h2] h1 h2 h3
    by (simp add: initialize_defaults_def)
qed

section \<open>Properties of attack resolution\<close>

text \<open>
  Claim C7: \<^verbatim>\<open>execute_attack\<close>, in the combat module and in the engine, returns true
  exactly when both ids resolve to characters and the Manhattan distance between them
  is at most 1, whatever the generator draws for the to-hit and damage rolls; so it
  returns false exactly when an id does not resolve or the distance exceeds 1.
\<close>

theorem C7_execute_attack_result:
  "fst (CombatModule_execute_attack attacker_id target_id gsm g)
     = (\<exists>attacker target. Option.bind attacker_id (get_character_by_id gsm) = Some attacker
          \<and> Option.bind target_id (get_character_by_id gsm) = Some target
          \<and> manhattan (position attacker) (position target) \<le> 1)
   \<and> fst (GameEngine_execute_attack attacker_id target_id gsm g)
     = (\<exists>attacker target. Option.bind attacker_id (get_character_by_id gsm) = Some attacker
          \<and> Option.bind target_id (get_character_by_id gsm) = Some target
          \<and> manhattan (position attacker) (position target) \<le> 1)"
  by (auto simp: CombatModule_execute_attack_def GameEngine_execute_attack_def Let_def
           split: option.splits prod.splits)

section \<open>Properties of the turn controller\<close>

lemma roll_initiative_keys: "map fst (fst (roll_initiative cs g)) = map fst cs"
proof (induction cs arbitrary: g)
  case Nil
  show ?case by simp
next
  case (Cons e cs)
  obtain k0 c0 where e: "e = (k0, c0)" by (cases e)
  obtain r g1 where d: "draw 1 20 g = (r, g1)" by (cases "draw 1 20 g")
  obtain rest lg g2 where rec: "roll_initiative cs g1 = (rest, lg, g2)"
    by (cases "roll_initiative cs g1")
  have "map fst rest = map fst cs" using Cons.IH [of g1] rec by simp
  then show ?case using e d rec by simp
qed

lemma roll_initiative_range:
  "(k, c) \<in> set (fst (roll_initiative cs g)) \<Longrightarrow> 1 \<le> initiative c \<and> initiative c \<le> 20"
proof (induction cs arbitrary: g)
  case Nil
  then show ?case by simp
next
  case (Cons e cs)
  obtain k0 c0 where e: "e = (k0, c0)" by (cases e)
  obtain r g1 where d: "draw 1 20 g = (r, g1)" by (cases "draw 1 20 g")
  have r: "1 \<le> r \<and> r \<le> 20" using draw_range [of 1 20 g] d by simp
  obtain rest lg g2 where rec: "roll_initiative cs g1 = (rest, lg, g2)"
    by (cases "roll_initiative cs g1")
  from Cons.prems e d rec
  have "(k, c) = (k0, c0\<lparr>initiative := r\<rparr>) \<or> (k, c) \<in> set (fst (roll_initiative cs g1))"
    by auto
  then show ?case using r Cons.IH [of g1] by auto
qed

lemma sorted_reverse_mset: "mset (sorted_reverse f xs) = mset xs"
  by (simp add: sorted_reverse_def)

lemma sorted_reverse_descending: "sorted_wrt (\<lambda>a b. f a \<ge> f b) (sorted_reverse f xs)"
proof -
  have "sorted (map f (sort_key f (rev xs)))" by (rule sorted_sort_key)
  then have "sorted_wrt (\<lambda>a b. f a \<le> f b) (sort_key f (rev xs))"
    by (simp add: sorted_map)
  then show ?thesis by (simp add: sorted_reverse_def sorted_wrt_rev)
qed

lemma sorted_reverse_stable:
  "filter (\<lambda>x. f x = v) (sorted_reverse f xs) = filter (\<lambda>x. f x = v) xs"
  by (simp add: sorted_reverse_def rev_filter [symmetric] sort_key_stable)

lemma start_combat_result:
  assumes "roll_initiative (characters gsm) g = (cs, lg, g1)"
  shows "start_combat gsm g =
           (True,
            gsm\<lparr>combat_active := True, characters := cs,
                game_log := game_log gsm @ [Combat_started] @ lg
                  @ [Turn_order_is (map (name_of cs) (sorted_reverse (initiative_of cs) (map fst cs)))],
                turn_order := sorted_reverse (initiative_of cs) (map fst cs),
                current_turn_index := 0\<rparr>,
            g1)"
  using assms by (simp add: start_combat_def add_to_log_def Let_def)

lemma turn_order_advance_turn [simp]: "turn_order (advance_turn s) = turn_order s"
  by (simp add: advance_turn_def add_to_log_def Let_def)

lemma advance_turns_Suc: "advance_turns (Suc k) s = advance_turn (advance_turns k s)"
  by (simp add: advance_turns_def)

lemma advance_turns_below:
  assumes "current_turn_index s = 0"
  shows "k < length (turn_order s) \<Longrightarrow> advance_turns k s = s\<lparr>current_turn_index := int k\<rparr>"
proof (induction k)
  case 0
  have "s\<lparr>current_turn_index := current_turn_index s\<rparr> = s" by simp
  then show ?case using assms by (simp add: advance_turns_def)
next
  case (Suc k)
  then have "advance_turns k s = s\<lparr>current_turn_index := int k\<rparr>" by simp
  then show ?case using Suc.prems
    by (simp add: advance_turns_Suc advance_turn_def Let_def)
qed

lemma advance_turns_full_round:
  assumes "current_turn_index s = 0" and "turn_order s \<noteq> []"
  shows "advance_turns (length (turn_order s)) s = add_to_log New_round s"
proof -
  obtain k where k: "length (turn_order s) = Suc k"
    using assms(2) by (cases "turn_order s") auto
  have "advance_turns k s = s\<lparr>current_turn_index := int k\<rparr>"
    using advance_turns_below [OF assms(1), of k] k by simp
  then have "advance_turns (Suc k) s
               = add_to_log New_round (s\<lparr>current_turn_index := 0\<rparr>)"
    using k by (simp add: advance_turns_Suc advance_turn_def Let_def)
  moreover have "s\<lparr>current_turn_index := 0\<rparr> = s"
  proof -
    have "s\<lparr>current_turn_index := current_turn_index s\<rparr> = s" by simp
    then show ?thesis using assms(1) by simp
  qed
  ultimately show ?thesis using k by simp
qed

text \<open>
  Claim C3, as the specification states it, ends: calling \<^verbatim>\<open>advance_turn\<close> exactly
  \<^verbatim>\<open>len(turn_order)\<close> times appends exactly one new-round marker. With no character in
  the collection the turn order is empty, \<^verbatim>\<open>advance_turn\<close> is called zero times and the
  log after those calls is the log \<^verbatim>\<open>start_combat\<close> left: no marker.
\<close>

theorem C3_empty_roster_no_new_round_counterexample:
  "turn_order (fst (snd (start_combat new_game []))) = []
   \<and> game_log (fst (snd (start_combat new_game []))) = [Combat_started, Turn_order_is []]
   \<and> game_log (advance_turns (length (turn_order (fst (snd (start_combat new_game [])))))
                 (fst (snd (start_combat new_game []))))
       = [Combat_started, Turn_order_is []]"
  by (simp add: start_combat_def new_game_def add_to_log_def sorted_reverse_def
        advance_turns_def Let_def)

text \<open>
  Claim C3, amended to a collection with at least one character. \<^verbatim>\<open>start_combat\<close>
  returns true and leaves a state \<open>s\<close> in which: the character keys are the ones present
  before; every character's initiative is a roll between 1 and 20; \<^verbatim>\<open>turn_order\<close> is a
  permutation of the character keys, in descending order of the rolled initiative, with
  equal initiatives in the insertion order of the collection; and
  \<^verbatim>\<open>current_turn_index\<close> is 0. From \<open>s\<close>, calling \<^verbatim>\<open>advance_turn\<close> exactly
  \<^verbatim>\<open>len(turn_order)\<close> times leaves \<^verbatim>\<open>current_turn_index\<close> at 0 and the log longer by
  exactly one entry, the new-round marker.
\<close>

theorem C3_start_combat_and_full_round:
  assumes nonempty: "characters gsm \<noteq> []"
      and run: "start_combat gsm g = (ok, s, g')"
  shows "ok
       \<and> map fst (characters s) = map fst (characters gsm)
       \<and> (\<forall>(k, c) \<in> set (characters s). 1 \<le> initiative c \<and> initiative c \<le> 20)
       \<and> mset (turn_order s) = mset (map fst (characters gsm))
       \<and> sorted_wrt (\<lambda>a b. initiative_of (characters s) a \<ge> initiative_of (characters s) b)
            (turn_order s)
       \<and> (\<forall>v. filter (\<lambda>k. initiative_of (characters s) k = v) (turn_order s)
              = filter (\<lambda>k. initiative_of (characters s) k = v) (map fst (characters gsm)))
       \<and> current_turn_index s = 0
       \<and> current_turn_index (advance_turns (length (turn_order s)) s) = 0
       \<and> game_log (advance_turns (length (turn_order s)) s) = game_log s @ [New_round]"
proof -
  obtain cs lg g1 where roll: "roll_initiative (characters gsm) g = (cs, lg, g1)"
    by (cases "roll_initiative (characters gsm) g")
  have keys: "map fst cs = map fst (characters gsm)"
    using roll_initiative_keys [of "characters gsm" g] roll by simp
  have range: "\<forall>(k, c) \<in> set cs. 1 \<le> initiative c \<and> initiative c \<le> 20"
    using roll_initiative_range [of _ _ "characters gsm" g] roll by auto
  from run start_combat_result [OF roll]
  have ok: "ok"
    and cs: "characters s = cs"
    and order: "turn_order s = sorted_reverse (initiative_of cs) (map fst cs)"
    and idx: "current_turn_index s = 0"
    by auto
  have ne: "turn_order s \<noteq> []"
  proof
    assume "turn_order s = []"
    then have "mset (sorted_reverse (initiative_of cs) (map fst cs)) = {#}"
      using order by simp
    then have "map fst cs = []" by (simp add: sorted_reverse_mset)
    then show False using keys nonempty by simp
  qed
  have full: "advance_turns (length (turn_order s)) s = add_to_log New_round s"
    using idx ne by (rule advance_turns_full_round)
  have p1: "mset (turn_order s) = mset (map fst (characters gsm))"
    by (simp add: order sorted_reverse_mset keys)
  have p2: "sorted_wrt (\<lambda>a b. initiative_of (characters s) a \<ge> initiative_of (characters s) b)
              (turn_order s)"
    unfolding order cs by (rule sorted_reverse_descending)
  have p3: "\<forall>v. filter (\<lambda>k. initiative_of (characters s) k = v) (turn_order s)
              = filter (\<lambda>k. initiative_of (characters s) k = v) (map fst (characters gsm))"
    unfolding order cs by (simp add: sorted_reverse_stable keys)
  have p4: "current_turn_index (advance_turns (length (turn_order s)) s) = 0"
    using idx by (simp add: full add_to_log_def)
  have p5: "game_log (advance_turns (length (turn_order s)) s) = game_log s @ [New_round]"
    by (simp add: full)
  show ?thesis
    using ok keys cs range p1 p2 p3 idx p4 p5 by simp
qed

theorem C3_start_combat_and_full_round_witness:
  "characters duel \<noteq> []
   \<and> fst (start_combat duel [4, 16])
   \<and> turn_order (fst (snd (start_combat duel [4, 16]))) = [''goblin_1'', ''player'']
   \<and> map (\<lambda>e. initiative (snd e)) (characters (fst (snd (start_combat duel [4, 16])))) = [5, 17]
   \<and> current_turn_index (advance_turns 2 (fst (snd (start_combat duel [4, 16])))) = 0
   \<and> game_log (advance_turns 2 (fst (snd (start_combat duel [4, 16]))))
       = game_log (fst (snd (start_combat duel [4, 16]))) @ [New_round]"
proof -
  have h1: "characters duel \<noteq> []"
    by (simp add: duel_def eval_defs)
  have h2: "start_combat duel [4, 16]
              = (fst (start_combat duel [4, 16]), fst (snd (start_combat duel [4, 16])),
                 snd (snd (start_combat duel [4, 16])))"
    by simp
  have h3: "turn_order (fst (snd (start_combat duel [4, 16]))) = [''goblin_1'', ''player'']"
    by (simp add: start_combat_def duel_def eval_defs draw_def sorted_reverse_def
          initiative_of_def Let_def)
  have h4: "map (\<lambda>e. initiative (snd e)) (characters (fst (snd (start_combat duel [4, 16])))) = [5, 17]"
    by (simp add: start_combat_def duel_def eval_defs draw_def Let_def)
  have len: "length (turn_order (fst (snd (start_combat duel [4, 16])))) = 2"
    by (simp add: h3)
  have t: "fst (start_combat duel [4, 16])
         \<and> current_turn_index (advance_turns (length (turn_order (fst (snd (start_combat duel [4, 16])))))
                                 (fst (snd (start_combat duel [4, 16])))) = 0
         \<and> game_log (advance_turns (length (turn_order (fst (snd (start_combat duel [4, 16])))))
                       (fst (snd (start_combat duel [4, 16]))))
             = game_log (fst (snd (start_combat duel [4, 16]))) @ [New_round]"
    using C3_start_combat_and_full_round [OF h1 h2] by blast
  show ?thesis
    using t [unfolded len] h1 h3 h4 by blast
qed

section \<open>Properties of spell casting\<close>

lemma roll_dice_1d8: "roll_dice ''1d8'' g = (Inr (fst (draw 1 8 g)), snd (draw 1 8 g))"
  by (simp add: roll_dice_def match_dice_def is_digit_def int_of_digits_def digit_value_def
        randint_def Let_def split: prod.splits)

lemma cure_wounds_name: "replace_space (lower ''Cure Wounds'') = ''cure_wounds''"
  by code_simp

lemma cure_wounds_in_database:
  "map_of spell_database ''cure_wounds''
     = Some \<lparr>spell_name = ''Cure Wounds'', level = 1, school = ''evocation''\<rparr>"
  by (simp add: spell_database_def)

lemma set_character_twice:
  "set_character cid c2 (set_character cid c1 gsm) = set_character cid c2 gsm"
  by (simp add: set_character_def comp_def case_prod_beta)

text \<open>
  One successful self-targeted cast of \<^verbatim>\<open>cure_wounds\<close>, in full: a slot is spent, then
  the caster is healed by the die plus 3, capped at the maximum, and two lines are logged.
\<close>

lemma cast_cure_wounds_on_self:
  assumes c: "get_character_by_id gsm cid = Some c"
      and sp: "spells c = Some (known, slots, used)"
      and kn: "''cure_wounds'' \<in> set known"
      and sl: "map_of slots 1 = Some n" and us: "map_of used 1 = Some u" and free: "u < n"
      and tid: "tid = None \<or> tid = Some cid"
  shows "cast_spell cid (Some ''cure_wounds'') tid gsm g =
           (Inr True,
            add_to_log (Casts (name c) ''Cure Wounds'')
              (add_to_log (Heals (name c) (min (max_hp c) (hp c + (fst (draw 1 8 g) + 3)) - hp c))
                 (set_character cid
                    (c\<lparr>spells := Some (known, slots, AList.update 1 (u + 1) used),
                       hp := min (max_hp c) (hp c + (fst (draw 1 8 g) + 3))\<rparr>) gsm)),
            snd (draw 1 8 g))"
proof -
  let ?c1 = "c\<lparr>spells := Some (known, slots, AList.update 1 (u + 1) used)\<rparr>"
  let ?gsm1 = "set_character cid ?c1 gsm"
  have look1: "get_character_by_id ?gsm1 cid = Some ?c1"
    using c by (simp add: get_set_character)
  have eff: "execute_spell_effect \<lparr>spell_name = ''Cure Wounds'', level = 1, school = ''evocation''\<rparr>
               cid (Some cid) ?gsm1 g
             = (Inr True,
                add_to_log (Heals (name c) (min (max_hp c) (hp c + (fst (draw 1 8 g) + 3)) - hp c))
                  (set_character cid (?c1\<lparr>hp := min (max_hp c) (hp c + (fst (draw 1 8 g) + 3))\<rparr>) gsm),
                snd (draw 1 8 g))"
    by (simp add: execute_spell_effect_def cure_wounds_name look1 roll_dice_1d8 Let_def
          set_character_twice)
  from tid consider (none) "tid = None" | (empty) "tid = Some cid" "cid = []"
    | (self) "tid = Some cid" "cid \<noteq> []"
    by blast
  then show ?thesis
  proof cases
    case none
    then show ?thesis
      using c sp kn sl us free eff
      by (simp add: cast_spell_def cure_wounds_in_database getitem_def Let_def)
  next
    case empty
    then show ?thesis
      using c sp kn sl us free eff
      by (simp add: cast_spell_def cure_wounds_in_database getitem_def Let_def)
  next
    case self
    then show ?thesis
      using c sp kn sl us free eff look1
      by (simp add: cast_spell_def cure_wounds_in_database getitem_def Let_def)
  qed
qed

text \<open>
  Claim C8, as the specification states it: with the healing die at 6 the caster goes
  from 5 to 11 hit points. The code adds a spell modifier of 3 to the die, so the caster
  ends at 14.
\<close>

theorem C8_cure_wounds_heals_die_plus_three_counterexample:
  "fst (cast_spell ''player'' (Some ''cure_wounds'') None healer [5]) = Inr True
   \<and> map_option hp
        (get_character_by_id (fst (snd (cast_spell ''player'' (Some ''cure_wounds'') None healer [5])))
           ''player'')
       = Some 14"
proof -
  have c: "get_character_by_id healer ''player''
             = Some ((initialize_defaults ''player'' ''Hero'' ''player'' (4, 5))
                       \<lparr>hp := 5,
                        spells := Some ([''cure_wounds''],
                                        [(1, 1), (2, 0), (3, 0), (4, 0), (5, 0)],
                                        [(1, 0), (2, 0), (3, 0), (4, 0), (5, 0)])\<rparr>)"
    by (simp add: healer_def get_set_character duel_lookup)
  show ?thesis
    by (simp add: cast_cure_wounds_on_self [OF c, of "[''cure_wounds'']" _ _ 1 0]
          get_set_character c draw_def initialize_defaults_def)
qed

text \<open>
  Claim C8, amended to the healing the code computes. A caster who knows
  \<^verbatim>\<open>cure_wounds\<close>, has exactly one unused level-1 slot and stands at 5 of 20 hit points
  casts \<^verbatim>\<open>cure_wounds\<close> on self with the healing die at 6: the cast returns true, the
  caster is left at 14 of 20 and the level-1 slots-used counter is one higher (at 1 when
  it was 0). A second cast attempt, whatever the generator holds, returns false and
  leaves every character, hit points and slot tables included, as the first cast left
  them.
\<close>

theorem C8_cure_wounds_scenario:
  assumes c: "get_character_by_id gsm cid = Some c"
      and sp: "spells c = Some (known, slots, used)"
      and kn: "''cure_wounds'' \<in> set known"
      and sl: "map_of slots 1 = Some (u + 1)" and us: "map_of used 1 = Some u"
      and hp5: "hp c = 5" and max20: "max_hp c = 20"
      and die: "fst (draw 1 8 g) = 6"
      and tid: "tid = None \<or> tid = Some cid"
      and first: "cast_spell cid (Some ''cure_wounds'') tid gsm g = (r1, gsm1, g1)"
      and second: "cast_spell cid (Some ''cure_wounds'') tid gsm1 g2 = (r2, gsm2, g3)"
  shows "r1 = Inr True
       \<and> map_option hp (get_character_by_id gsm1 cid) = Some 14
       \<and> map_option max_hp (get_character_by_id gsm1 cid) = Some 20
       \<and> map_option spells (get_character_by_id gsm1 cid)
           = Some (Some (known, slots, AList.update 1 (u + 1) used))
       \<and> map_of (AList.update 1 (u + 1) used) 1 = Some (u + 1)
       \<and> r2 = Inr False
       \<and> characters gsm2 = characters gsm1
       \<and> g3 = g2"
proof -
  let ?c' = "c\<lparr>spells := Some (known, slots, AList.update 1 (u + 1) used), hp := 14\<rparr>"
  have one: "cast_spell cid (Some ''cure_wounds'') tid gsm g
               = (Inr True,
                  add_to_log (Casts (name c) ''Cure Wounds'')
                    (add_to_log (Heals (name c) 9) (set_character cid ?c' gsm)),
                  snd (draw 1 8 g))"
    using cast_cure_wounds_on_self [OF c sp kn sl us _ tid, of g] hp5 max20 die by simp
  from first one have r1: "r1 = Inr True"
    and gsm1: "gsm1 = add_to_log (Casts (name c) ''Cure Wounds'')
                        (add_to_log (Heals (name c) 9) (set_character cid ?c' gsm))"
    by simp_all
  have look: "get_character_by_id gsm1 cid = Some ?c'"
    using c by (simp add: gsm1 get_set_character)
  have upd: "map_of (AList.update 1 (u + 1) used) 1 = Some (u + 1)"
    by (simp add: update_conv')
  have two: "cast_spell cid (Some ''cure_wounds'') tid gsm1 g2
               = (Inr False, add_to_log (No_slots_left (name c) 1) gsm1, g2)"
    using look kn sl upd
    by (simp add: cast_spell_def cure_wounds_in_database getitem_def)
  from second two have r2: "r2 = Inr False" and gsm2: "characters gsm2 = characters gsm1"
    and g3: "g3 = g2"
    by auto
  show ?thesis
    using r1 look upd r2 gsm2 g3 hp5 max20 by simp
qed

theorem C8_cure_wounds_scenario_witness:
  "fst (cast_spell ''player'' (Some ''cure_wounds'') None healer [5]) = Inr True
   \<and> map_option hp
        (get_character_by_id (fst (snd (cast_spell ''player'' (Some ''cure_wounds'') None healer [5])))
           ''player'') = Some 14
   \<and> map_option spells
        (get_character_by_id (fst (snd (cast_spell ''player'' (Some ''cure_wounds'') None healer [5])))
           ''player'')
       = Some (Some ([''cure_wounds''],
                     [(1, 1), (2, 0), (3, 0), (4, 0), (5, 0)],
                     [(1, 1), (2, 0), (3, 0), (4, 0), (5, 0)]))
   \<and> fst (cast_spell ''player'' (Some ''cure_wounds'') None
             (fst (snd (cast_spell ''player'' (Some ''cure_wounds'') None healer [5]))) [7])
       = Inr False
   \<and> characters (fst (snd (cast_spell ''player'' (Some ''cure_wounds'') None
             (fst (snd (cast_spell ''player'' (Some ''cure_wounds'') None healer [5]))) [7])))
       = characters (fst (snd (cast_spell ''player'' (Some ''cure_wounds'') None healer [5])))"
proof -
  let ?c = "(initialize_defaults ''player'' ''Hero'' ''player'' (4, 5))
              \<lparr>hp := 5,
               spells := Some ([''cure_wounds''],
                               [(1, 1), (2, 0), (3, 0), (4, 0), (5, 0)],
                               [(1, 0), (2, 0), (3, 0), (4, 0), (5, 0)])\<rparr>"
  let ?first = "cast_spell ''player'' (Some ''cure_wounds'') None healer [5]"
  let ?second = "cast_spell ''player'' (Some ''cure_wounds'') None (fst (snd ?first)) [7]"
  have h1: "get_character_by_id healer ''player'' = Some ?c"
    by (simp add: healer_def get_set_character duel_lookup)
  have h2: "spells ?c = Some ([''cure_wounds''],
                               [(1, 1), (2, 0), (3, 0), (4, 0), (5, 0)],
                               [(1, 0), (2, 0), (3, 0), (4, 0), (5, 0)])"
    by simp
  have h3: "''cure_wounds'' \<in> set [''cure_wounds'']" by simp
  have h4: "map_of [(1, 1), (2, 0), (3, 0), (4, 0), (5, 0)] (1 :: int) = Some ((0 :: int) + 1)"
    by simp
  have h5: "map_of [(1, 0), (2, 0), (3, 0), (4, 0), (5, 0)] (1 :: int) = Some (0 :: int)"
    by simp
  have h6: "hp ?c = 5" by simp
  have h7: "max_hp ?c = 20" by (simp add: initialize_defaults_def)
  have h8: "fst (draw 1 8 [5]) = 6" by (simp add: draw_def)
  have h9: "(None :: string option) = None \<or> None = Some ''player''" by simp
  have h10: "?first = (fst ?first, fst (snd ?first), snd (snd ?first))" by simp
  have h11: "?second = (fst ?second, fst (snd ?second), snd (snd ?second))" by simp
  show ?thesis
    using C8_cure_wounds_scenario [OF h1 h2 h3 h4 h5 h6 h7 h8 h9 h10 h11]
    by simp
qed

section \<open>Properties of hit points\<close>

lemma hp_invariant_add_to_log [simp]: "hp_invariant (add_to_log e gsm) = hp_invariant gsm"
  by (simp add: hp_invariant_def)

lemma hp_invariant_game_log [simp]: "hp_invariant (gsm\<lparr>game_log := lg\<rparr>) = hp_invariant gsm"
  by (simp add: hp_invariant_def)

lemma hp_invariant_lookup:
  "hp_invariant gsm \<Longrightarrow> get_character_by_id gsm k = Some c \<Longrightarrow> hp_in_range c"
  by (auto simp: hp_invariant_def get_character_by_id_def list_all_iff dest!: map_of_SomeD)

lemma hp_invariant_set_character:
  "hp_invariant gsm \<Longrightarrow> hp_in_range c \<Longrightarrow> hp_invariant (set_character cid c gsm)"
  by (auto simp: hp_invariant_def set_character_def list_all_iff split: if_splits)

lemma hp_invariant_commit:
  "hp_invariant gsm \<Longrightarrow> hp_in_range c \<Longrightarrow> hp_invariant (commit cid c lg gsm)"
  by (simp add: commit_def hp_invariant_set_character)

lemma apply_damage_invariant:
  assumes "hp_invariant gsm" and "0 \<le> d"
  shows "hp_invariant (snd (apply_damage cid d gsm))"
    and "hp_invariant (snd (CombatModule_apply_damage cid d gsm))"
  using assms hp_invariant_lookup [of gsm cid]
  by (auto simp: apply_damage_def CombatModule_apply_damage_def Let_def hp_in_range_def
        split: option.splits intro!: hp_invariant_set_character)

lemma randint_lower: "randint 1 d g = (Inr r, g1) \<Longrightarrow> 1 \<le> r"
  using draw_range [of 1 d g]
  by (auto simp: randint_def split: if_splits prod.splits)

lemma roll_sum_nonneg: "roll_sum n d g = (Inr t, g1) \<Longrightarrow> 0 \<le> t"
proof (induction n arbitrary: g t g1)
  case 0
  then show ?case by simp
next
  case (Suc n)
  then obtain r g2 t' where r: "randint 1 d g = (Inr r, g2)"
    and rest: "roll_sum n d g2 = (Inr t', g1)" and t: "t = r + t'"
    by (auto split: prod.splits sum.splits)
  have "1 \<le> r" using r by (rule randint_lower)
  moreover have "0 \<le> t'" using rest by (rule Suc.IH)
  ultimately show ?case using t by simp
qed

lemma match_dice_nonneg:
  "match_dice s = Some (n, d, m) \<Longrightarrow> 0 \<le> m"
  by (auto simp: match_dice_def int_of_digits_def Let_def split: if_splits list.splits)

lemma roll_dice_nonneg: "roll_dice s g = (Inr r, g1) \<Longrightarrow> 0 \<le> r"
proof (cases "match_dice s")
  case None
  then show "roll_dice s g = (Inr r, g1) \<Longrightarrow> 0 \<le> r" by (simp add: roll_dice_def)
next
  case (Some ndm)
  obtain n d m where ndm: "ndm = (n, d, m)" by (cases ndm)
  assume "roll_dice s g = (Inr r, g1)"
  then obtain t where t: "roll_sum (nat n) d g = (Inr t, g1)" and r: "r = t + m"
    using Some ndm by (auto simp: roll_dice_def split: prod.splits sum.splits)
  have "0 \<le> t" using t by (rule roll_sum_nonneg)
  moreover have "0 \<le> m" using Some ndm by (auto dest: match_dice_nonneg)
  ultimately show "0 \<le> r" using r by simp
qed

lemma fireball_loop_in_range:
  "list_all (\<lambda>(k, c). hp_in_range c) cs \<Longrightarrow> 0 \<le> damage
     \<Longrightarrow> list_all (\<lambda>(k, c). hp_in_range c) (fst (fireball_loop cs damage))"
proof (induction cs)
  case Nil
  then show ?case by simp
next
  case (Cons e cs)
  obtain k c where e: "e = (k, c)" by (cases e)
  obtain rest lg hit where rec: "fireball_loop cs damage = (rest, lg, hit)"
    by (cases "fireball_loop cs damage")
  have "list_all (\<lambda>(k, c). hp_in_range c) rest" using Cons rec by simp
  moreover have "hp_in_range c" using Cons.prems e by simp
  ultimately show ?case
    using e rec Cons.prems(2) by (auto simp: Let_def hp_in_range_def)
qed

lemma execute_spell_effect_invariant:
  assumes inv: "hp_invariant gsm"
  shows "hp_invariant (fst (snd (execute_spell_effect spell caster target gsm g)))"
proof -
  let ?sname = "replace_space (lower (spell_name spell))"
  consider (cure) "?sname = ''cure_wounds''"
    | (missile) "?sname \<noteq> ''cure_wounds''" "?sname = ''magic_missile''"
    | (shield) "?sname \<noteq> ''cure_wounds''" "?sname \<noteq> ''magic_missile''" "?sname = ''shield''"
    | (fireball) "?sname \<noteq> ''cure_wounds''" "?sname \<noteq> ''magic_missile''"
        "?sname \<noteq> ''shield''" "?sname = ''fireball''"
    | (other) "?sname \<noteq> ''cure_wounds''" "?sname \<noteq> ''magic_missile''"
        "?sname \<noteq> ''shield''" "?sname \<noteq> ''fireball''"
    by blast
  then show ?thesis
  proof cases
    case cure
    show ?thesis
    proof (cases "Option.bind target (get_character_by_id gsm)")
      case None
      then show ?thesis using inv cure by (simp add: execute_spell_effect_def)
    next
      case (Some t)
      then have t: "hp_in_range t"
        using inv by (cases target) (auto dest: hp_invariant_lookup)
      show ?thesis
      proof (cases "roll_dice ''1d8'' g")
        case (Pair r g1)
        then show ?thesis
          using inv cure Some t roll_dice_nonneg [of "''1d8''" g _ g1]
          by (cases r)
             (auto simp: execute_spell_effect_def Let_def hp_in_range_def
                intro!: hp_invariant_set_character)
      qed
    qed
  next
    case missile
    show ?thesis
    proof (cases "Option.bind target (get_character_by_id gsm)")
      case None
      then show ?thesis using inv missile by (simp add: execute_spell_effect_def)
    next
      case (Some t)
      then have t: "hp_in_range t"
        using inv by (cases target) (auto dest: hp_invariant_lookup)
      obtain o1 g1 where d1: "roll_dice ''1d4'' g = (o1, g1)" by (cases "roll_dice ''1d4'' g")
      obtain o2 g2 where d2: "roll_dice ''1d4'' g1 = (o2, g2)" by (cases "roll_dice ''1d4'' g1")
      obtain o3 g3 where d3: "roll_dice ''1d4'' g2 = (o3, g3)" by (cases "roll_dice ''1d4'' g2")
      show ?thesis
      proof (cases "\<exists>r1 r2 r3. o1 = Inr r1 \<and> o2 = Inr r2 \<and> o3 = Inr r3")
        case False
        then show ?thesis
          using inv missile Some d1 d2 d3
          by (cases o1; cases o2; cases o3) (auto simp: execute_spell_effect_def)
      next
        case True
        then obtain r1 r2 r3 where rs: "o1 = Inr r1" "o2 = Inr r2" "o3 = Inr r3" by blast
        have "0 \<le> r1" "0 \<le> r2" "0 \<le> r3"
          using d1 d2 d3 rs by (auto dest: roll_dice_nonneg)
        then have "0 \<le> (r1 + 1) + (r2 + 1) + (r3 + 1)" by simp
        then show ?thesis
          using inv missile Some d1 d2 d3 rs t
          by (auto simp: execute_spell_effect_def Let_def hp_in_range_def
                intro!: hp_invariant_set_character)
      qed
    qed
  next
    case shield
    show ?thesis
    proof (cases "get_character_by_id gsm caster")
      case None
      then show ?thesis using inv shield by (simp add: execute_spell_effect_def)
    next
      case (Some c)
      then have "hp_in_range c" using inv by (rule hp_invariant_lookup [rotated])
      then have "hp_in_range (c\<lparr>temp_ac_bonus := Some (get_default (temp_ac_bonus c) 0 + 5),
                                ac := ac c + 5\<rparr>)"
        by (simp add: hp_in_range_def)
      then show ?thesis
        using inv shield Some
        by (simp add: execute_spell_effect_def Let_def hp_invariant_set_character get_default_def
              split: option.splits)
    qed
  next
    case fireball
    obtain o1 g1 where d: "roll_dice ''8d6'' g = (o1, g1)" by (cases "roll_dice ''8d6'' g")
    show ?thesis
    proof (cases o1)
      case (Inl e)
      then show ?thesis using inv fireball d by (simp add: execute_spell_effect_def)
    next
      case (Inr damage)
      then have "0 \<le> damage" using d by (auto dest: roll_dice_nonneg)
      then have "list_all (\<lambda>(k, c). hp_in_range c) (fst (fireball_loop (characters gsm) damage))"
        using inv by (simp add: hp_invariant_def fireball_loop_in_range)
      then show ?thesis
        using fireball d Inr
        by (auto simp: execute_spell_effect_def Let_def hp_invariant_def add_to_log_def
              split: prod.splits)
    qed
  next
    case other
    then show ?thesis using inv by (simp add: execute_spell_effect_def)
  qed
qed

lemma execute_spell_effect_invariant_result:
  "hp_invariant gsm \<Longrightarrow> execute_spell_effect spell caster target gsm g = (r, gsm2, g1)
     \<Longrightarrow> hp_invariant gsm2"
  using execute_spell_effect_invariant [of gsm spell caster target g] by simp

lemma cast_spell_invariant:
  assumes inv: "hp_invariant gsm"
  shows "hp_invariant (fst (snd (cast_spell caster sp tid gsm g)))"
proof (cases "get_character_by_id gsm caster")
  case None
  then show ?thesis using inv by (simp add: cast_spell_def)
next
  case (Some c)
  then have c: "hp_in_range c" using inv by (rule hp_invariant_lookup [rotated])
  have upd: "\<And>v. hp_invariant (set_character caster (c\<lparr>spells := v\<rparr>) gsm)"
    using inv c by (simp add: hp_invariant_set_character hp_in_range_def)
  show ?thesis
    using inv Some upd
    by (auto simp: cast_spell_def Let_def
          split: option.splits prod.splits sum.splits bool.splits
          dest: execute_spell_effect_invariant_result)
qed

lemma SpellsModule_process_action_invariant:
  "hp_invariant gsm \<Longrightarrow> hp_invariant (fst (snd (SpellsModule_process_action a gsm g)))"
  by (simp add: SpellsModule_process_action_def Let_def cast_spell_invariant split: option.splits)

lemma apply_item_bonuses_hp [simp]:
  "hp (apply_item_bonuses c item e) = hp c" "max_hp (apply_item_bonuses c item e) = max_hp c"
  by (simp_all add: apply_item_bonuses_def Let_def split: option.splits)

lemma unequip_item_hp:
  "hp (fst (snd (unequip_item c nm))) = hp c \<and> max_hp (fst (snd (unequip_item c nm))) = max_hp c"
  by (simp add: unequip_item_def Let_def split: option.splits prod.splits)

lemma equip_item_hp:
  "hp (fst (snd (equip_item c nm))) = hp c \<and> max_hp (fst (snd (equip_item c nm))) = max_hp c"
proof -
  have u: "\<And>n r c' lg'. unequip_item c n = (r, c', lg') \<Longrightarrow> hp c' = hp c \<and> max_hp c' = max_hp c"
    using unequip_item_hp by (metis fst_conv snd_conv)
  show ?thesis
    by (auto simp: equip_item_def Let_def split: option.splits prod.splits sum.splits dest: u)
qed

lemma drop_item_hp:
  "hp (fst (snd (drop_item c nm))) = hp c \<and> max_hp (fst (snd (drop_item c nm))) = max_hp c"
  by (simp add: drop_item_def split: option.splits prod.splits sum.splits)

lemma use_item_in_range:
  assumes "hp_in_range c"
  shows "hp_in_range (fst (snd (use_item c nm g)))"
  using assms
  by (auto simp: use_item_def Let_def hp_in_range_def
        split: option.splits prod.splits sum.splits dest: roll_dice_nonneg)

lemma InventoryModule_process_action_invariant:
  assumes inv: "hp_invariant gsm"
  shows "hp_invariant (fst (snd (InventoryModule_process_action a gsm g)))"
proof (cases "get_character_by_id gsm (get_default (a_character_id a) ''player'')")
  case None
  then show ?thesis using inv by (simp add: InventoryModule_process_action_def)
next
  case (Some c)
  then have c: "hp_in_range c" using inv by (rule hp_invariant_lookup [rotated])
  have e: "hp_in_range (fst (snd (equip_item c (a_item_name a))))"
    using c equip_item_hp [of c "a_item_name a"] by (simp add: hp_in_range_def)
  have u: "hp_in_range (fst (snd (unequip_item c (a_item_name a))))"
    using c unequip_item_hp [of c "a_item_name a"] by (simp add: hp_in_range_def)
  have d: "hp_in_range (fst (snd (drop_item c (a_item_name a))))"
    using c drop_item_hp [of c "a_item_name a"] by (simp add: hp_in_range_def)
  have i: "hp_in_range (fst (snd (use_item c (a_item_name a) g)))"
    using c by (rule use_item_in_range)
  show ?thesis
    using inv Some e u d i
    by (auto simp: InventoryModule_process_action_def Let_def hp_invariant_commit
          split: prod.splits)
qed

lemma execute_attack_invariant:
  assumes inv: "hp_invariant gsm"
  shows "hp_invariant (fst (snd (CombatModule_execute_attack aid tid gsm g)))"
    and "hp_invariant (fst (snd (GameEngine_execute_attack aid tid gsm g)))"
proof -
  have dmg: "0 \<le> fst (draw 1 8 g') + 2" for g'
    using draw_range [of 1 8 g'] by linarith
  have a: "\<And>k d s. hp_invariant s \<Longrightarrow> 0 \<le> d \<Longrightarrow> hp_invariant (snd (apply_damage k d s))"
    by (rule apply_damage_invariant)
  have b: "\<And>k d s. hp_invariant s \<Longrightarrow> 0 \<le> d \<Longrightarrow> hp_invariant (snd (CombatModule_apply_damage k d s))"
    by (rule apply_damage_invariant)
  show "hp_invariant (fst (snd (CombatModule_execute_attack aid tid gsm g)))"
    using inv dmg
    by (auto simp: CombatModule_execute_attack_def Let_def split: option.splits prod.splits
          intro!: b) (metis fst_conv)+
  show "hp_invariant (fst (snd (GameEngine_execute_attack aid tid gsm g)))"
    using inv dmg
    by (auto simp: GameEngine_execute_attack_def Let_def split: option.splits prod.splits
          intro!: a) (metis fst_conv)+
qed

lemma get_commit:
  "get_character_by_id (commit cid c lg gsm) k =
     (if k = cid then map_option (\<lambda>_. c) (get_character_by_id gsm k)
      else get_character_by_id gsm k)"
proof -
  have "get_character_by_id (commit cid c lg gsm) k = get_character_by_id (set_character cid c gsm) k"
    by (simp add: commit_def get_character_by_id_def)
  then show ?thesis by (simp add: get_set_character)
qed

lemma duel_invariant: "hp_invariant duel"
  by (simp add: duel_def eval_defs hp_invariant_def hp_in_range_def)

lemma stocked_invariant: "hp_invariant stocked"
  by (simp add: stocked_def duel_def eval_defs hp_invariant_def hp_in_range_def)

text \<open>
  Claim C6, as the specification states it, covers damage application with any integer
  amount. \<^verbatim>\<open>apply_damage\<close> clamps at zero only, so a negative amount raises hit points
  past the maximum: the goblin of \<open>duel\<close> (10 of 10) takes -5 damage and stands at 15 of
  10.
\<close>

theorem C6_negative_damage_exceeds_maximum_counterexample:
  "hp_invariant duel
   \<and> map_option hp (get_character_by_id (snd (apply_damage ''goblin_1'' (- 5) duel)) ''goblin_1'')
       = Some 15
   \<and> map_option max_hp (get_character_by_id (snd (apply_damage ''goblin_1'' (- 5) duel)) ''goblin_1'')
       = Some 10
   \<and> \<not> hp_invariant (snd (apply_damage ''goblin_1'' (- 5) duel))"
  by (simp add: duel_invariant)
     (simp add: apply_damage_def duel_def eval_defs hp_invariant_def hp_in_range_def Let_def)

text \<open>
  Claim C6, amended to damage amounts that are not negative. From a state in which every
  character has \<open>0 \<le> hp \<le> max_hp\<close>, each of these leaves such a state, whatever the
  generator draws and whether the operation succeeds, fails or raises: damage application
  with an amount \<open>d \<ge> 0\<close> (the state manager's and the combat module's), a spell effect,
  a cast, any action processed by the spells module, any action processed by the
  inventory module (item use and its healing included), and an attack.
\<close>

theorem C6_hit_points_stay_in_range:
  assumes "hp_invariant gsm"
  shows "(0 \<le> d \<longrightarrow> hp_invariant (snd (apply_damage cid d gsm))
                    \<and> hp_invariant (snd (CombatModule_apply_damage cid d gsm)))
       \<and> hp_invariant (fst (snd (execute_spell_effect spell caster target gsm g)))
       \<and> hp_invariant (fst (snd (cast_spell caster sp tid gsm g)))
       \<and> hp_invariant (fst (snd (SpellsModule_process_action a gsm g)))
       \<and> hp_invariant (fst (snd (InventoryModule_process_action a gsm g)))
       \<and> hp_invariant (fst (snd (CombatModule_execute_attack aid tid gsm g)))
       \<and> hp_invariant (fst (snd (GameEngine_execute_attack aid tid gsm g)))"
  using assms
  by (simp add: apply_damage_invariant execute_spell_effect_invariant cast_spell_invariant
        SpellsModule_process_action_invariant InventoryModule_process_action_invariant
        execute_attack_invariant)

theorem C6_hit_points_stay_in_range_witness:
  "hp_invariant stocked
   \<and> (0 :: int) \<le> 30
   \<and> hp_invariant (snd (apply_damage ''player'' 30 stocked))
   \<and> map_option hp (get_character_by_id (snd (apply_damage ''player'' 30 stocked)) ''player'') = Some 0
   \<and> fst (InventoryModule_process_action
             ((action_of_type ''use_item'')\<lparr>a_item_name := Some ''healing potion''\<rparr>) stocked [1, 2])
       = Inr True
   \<and> map_option hp (get_character_by_id (fst (snd (InventoryModule_process_action
             ((action_of_type ''use_item'')\<lparr>a_item_name := Some ''healing potion''\<rparr>) stocked [1, 2])))
             ''player'')
       = Some 12
   \<and> hp_invariant (fst (snd (InventoryModule_process_action
             ((action_of_type ''use_item'')\<lparr>a_item_name := Some ''healing potion''\<rparr>) stocked [1, 2])))"
proof -
  let ?a = "(action_of_type ''use_item'')\<lparr>a_item_name := Some ''healing potion''\<rparr>"
  note h = stocked_invariant
  have d: "(0 :: int) \<le> 30" by simp
  have e1: "map_option hp (get_character_by_id (snd (apply_damage ''player'' 30 stocked)) ''player'') = Some 0"
    by (simp add: apply_damage_def stocked_def duel_def eval_defs Let_def)
  have e2: "InventoryModule_process_action ?a stocked [1, 2]
              = (Inr True,
                 commit ''player''
                   ((initialize_defaults ''player'' ''Hero'' ''player'' (4, 5))
                      \<lparr>hp := 12,
                       inventory := Some ([longsword, healing_potion\<lparr>quantity := 1\<rparr>],
                                          [(''weapon'', None), (''armor'', None), (''shield'', None)])\<rparr>)
                   [Uses_and_heals ''Hero'' ''healing potion'' 7] stocked,
                 [])"
    by code_simp
  have e3: "get_character_by_id stocked ''player'' \<noteq> None"
    by (simp add: stocked_def duel_def eval_defs)
  have e4: "map_option hp (get_character_by_id (fst (snd (InventoryModule_process_action ?a stocked [1, 2])))
              ''player'') = Some 12"
    unfolding e2 using e3 by (auto simp: get_commit)
  show ?thesis
    using C6_hit_points_stay_in_range
            [where gsm = stocked and d = 30 and cid = "''player''" and a = ?a and g = "[1, 2]", OF h]
          h d e1 e2 e4
    by simp
qed

section \<open>Properties of actions with missing fields\<close>

lemma randint_raises: "randint a b g = (Inl e, g') \<Longrightarrow> e = Exception ''ValueError''"
  by (auto simp: randint_def split: if_splits prod.splits)

lemma roll_sum_raises: "roll_sum n d g = (Inl e, g') \<Longrightarrow> e = Exception ''ValueError''"
proof (induction n arbitrary: g)
  case 0
  then show ?case by simp
next
  case (Suc n)
  show ?case
  proof (cases "randint 1 d g")
    case (Pair r g1)
    show ?thesis
    proof (cases r)
      case (Inl e1)
      then show ?thesis using Suc.prems Pair by (auto dest: randint_raises)
    next
      case (Inr v)
      then show ?thesis
        using Suc.prems Pair Suc.IH [of g1]
        by (auto split: prod.splits sum.splits)
    qed
  qed
qed

lemma roll_dice_raises: "roll_dice ds g = (Inl e, g') \<Longrightarrow> e = Exception ''ValueError''"
  by (auto simp: roll_dice_def split: option.splits prod.splits sum.splits dest: roll_sum_raises)

lemma find_item_raises:
  "find_item_in_inventory items nm = Inl e \<Longrightarrow> e = Exception ''AttributeError''"
  by (induction items) (auto split: option.splits if_splits sum.splits)

lemma unequip_item_raises:
  "unequip_item c nm = (Inl e, c', lg) \<Longrightarrow> e = Exception ''AttributeError''"
  by (auto simp: unequip_item_def Let_def split: option.splits prod.splits)

lemma equip_item_raises:
  "equip_item c nm = (Inl e, c', lg) \<Longrightarrow> e = Exception ''AttributeError''"
  by (auto simp: equip_item_def Let_def split: option.splits prod.splits sum.splits
        dest: find_item_raises)

lemma drop_item_raises:
  "drop_item c nm = (Inl e, c', lg) \<Longrightarrow> e = Exception ''AttributeError''"
  by (auto simp: drop_item_def split: option.splits prod.splits sum.splits dest: find_item_raises)

lemma use_item_raises:
  "use_item c nm g = (Inl e, c', lg, g') \<Longrightarrow> e = Exception ''AttributeError'' \<or> e = Exception ''ValueError''"
  by (auto simp: use_item_def Let_def split: option.splits prod.splits sum.splits if_splits
        dest: find_item_raises roll_dice_raises)

lemma InventoryModule_process_action_raises:
  "InventoryModule_process_action a gsm g = (Inl e, gsm', g') \<Longrightarrow> \<exists>x. e = Exception x"
  by (auto simp: InventoryModule_process_action_def Let_def
        split: option.splits prod.splits if_splits
        dest: equip_item_raises unequip_item_raises drop_item_raises use_item_raises)

lemma execute_spell_effect_raises:
  "execute_spell_effect spell caster target gsm g = (Inl e, gsm', g') \<Longrightarrow> e = Exception ''ValueError''"
  by (auto simp: execute_spell_effect_def Let_def
        split: if_splits option.splits prod.splits sum.splits
        dest: roll_dice_raises)

lemma cast_spell_raises:
  "cast_spell caster sp tid gsm g = (Inl e, gsm', g') \<Longrightarrow> \<exists>x. e = Exception x"
  by (auto simp: cast_spell_def getitem_def Let_def
        split: if_splits option.splits prod.splits sum.splits bool.splits
        dest: execute_spell_effect_raises)

lemma SpellsModule_process_action_raises:
  "SpellsModule_process_action a gsm g = (Inl e, gsm', g') \<Longrightarrow> \<exists>x. e = Exception x"
  by (auto simp: SpellsModule_process_action_def Let_def split: option.splits if_splits
        dest: cast_spell_raises)

lemma registered_modules_safe:
  assumes "\<not> type_in [''chat_with_dm'', ''dm_narrate'', ''dm_response''] a"
  shows "\<forall>m \<in> set (registered_modules chat). \<forall>w. \<exists>b w'. can_handle m a w = (Inr b, w')
           \<and> (b \<longrightarrow> (\<forall>c w''. process_action m a w' \<noteq> (Inl (BaseException c), w'')))"
proof -
  have inv: "process_action InventoryModule a w \<noteq> (Inl (BaseException c), w'')" for w c w''
    by (auto simp: InventoryModule_def split: prod.splits dest: InventoryModule_process_action_raises)
  have sp: "process_action SpellsModule a w \<noteq> (Inl (BaseException c), w'')" for w c w''
    by (auto simp: SpellsModule_def split: prod.splits dest: SpellsModule_process_action_raises)
  have mv: "process_action MovementModule a w \<noteq> (Inl (BaseException c), w'')" for w c w''
    by (auto simp: MovementModule_def split: prod.splits)
  have cb: "process_action CombatModule a w \<noteq> (Inl (BaseException c), w'')" for w c w''
    by (auto simp: CombatModule_def split: prod.splits)
  have c1: "can_handle MovementModule a w = (Inr (type_in [''move'', ''dash''] a), w)" for w
    by (simp add: MovementModule_def)
  have c2: "can_handle CombatModule a w = (Inr (type_in [''attack'', ''start_combat''] a), w)" for w
    by (simp add: CombatModule_def)
  have c3: "can_handle InventoryModule a w
              = (Inr (type_in [''equip'', ''unequip'', ''use_item'', ''drop_item''] a), w)" for w
    by (simp add: InventoryModule_def)
  have c4: "can_handle SpellsModule a w = (Inr (type_in [''cast_spell'', ''prepare_spell''] a), w)" for w
    by (simp add: SpellsModule_def)
  have c5: "can_handle (AIDMChatModule chat) a w = (Inr False, w)" for w
    using assms by (simp add: AIDMChatModule_def)
  show ?thesis
    using inv sp mv cb by (auto simp: registered_modules_def c1 c2 c3 c4 c5)
qed

text \<open>
  Claim C9, as the specification states it: an action missing a required field yields a
  false result and does not succeed by acting on a defaulted character. The modules read
  \<^verbatim>\<open>character_id\<close> with the default \<^verbatim>\<open>'player'\<close>. Here a move action carries a position
  and no \<^verbatim>\<open>character_id\<close>: the movement module returns true and the character
  \<^verbatim>\<open>'player'\<close> has moved.
\<close>

theorem C9_move_without_character_id_moves_player_counterexample:
  "fst (MovementModule_process_action ((action_of_type ''move'')\<lparr>a_position := Some (5, 5)\<rparr>) duel [])
     = True
   \<and> map_option position
        (get_character_by_id
           (fst (snd (MovementModule_process_action
                        ((action_of_type ''move'')\<lparr>a_position := Some (5, 5)\<rparr>) duel [])))
           ''player'')
       = Some (5, 5)"
  by (simp add: MovementModule_process_action_def action_of_type_def get_default_def
        handle_movement_def is_valid_move_def is_position_blocked_def manhattan_def
        get_character_speed_def duel_def eval_defs Let_def)

text \<open>
  Claim C9, amended to the defaults the code applies. No omission of
  \<^verbatim>\<open>character_id\<close>, \<^verbatim>\<open>attacker_id\<close>, \<^verbatim>\<open>target_id\<close>, \<^verbatim>\<open>position\<close> or \<^verbatim>\<open>spell_name\<close>
  surfaces as a thrown error; defensive default extraction decides the result.
  \<^item> An attack without \<^verbatim>\<open>target_id\<close> gives a false result and leaves the state as it
    was. A \<^verbatim>\<open>cast_spell\<close> without \<^verbatim>\<open>spell_name\<close> gives a false result and leaves every
    character and the generator as they were.
  \<^item> An action without \<^verbatim>\<open>character_id\<close> is processed by the movement, inventory and
    spells modules exactly as the same action with \<^verbatim>\<open>character_id = 'player'\<close>; an
    attack without \<^verbatim>\<open>attacker_id\<close> exactly as the same attack by \<^verbatim>\<open>'player'\<close>; a move
    without \<^verbatim>\<open>position\<close> exactly as the same move to \<open>(0, 0)\<close>. So the action acts on
    the defaulted character or square and can succeed.
  \<^item> When no character \<^verbatim>\<open>'player'\<close> exists, an action without \<^verbatim>\<open>character_id\<close> and an
    attack without \<^verbatim>\<open>attacker_id\<close> give a false result and leave the state as it was.
  \<^item> Processing never throws: for every action whose type is not one of the chat
    module's, \<^verbatim>\<open>ModuleManager.process_action\<close> over the registered modules returns a
    Boolean, whatever fields the action lacks.
\<close>

theorem C9_missing_fields_take_defaults:
  "(a_type a = Some ''attack'' \<and> a_target_id a = None
      \<longrightarrow> CombatModule_process_action a gsm g = (False, gsm, g))
   \<and> (a_type a = Some ''cast_spell'' \<and> a_spell_name a = None
      \<longrightarrow> fst (SpellsModule_process_action a gsm g) = Inr False
        \<and> characters (fst (snd (SpellsModule_process_action a gsm g))) = characters gsm
        \<and> snd (snd (SpellsModule_process_action a gsm g)) = g)
   \<and> (a_character_id a = None
      \<longrightarrow> MovementModule_process_action a gsm mu
            = MovementModule_process_action (a\<lparr>a_character_id := Some ''player''\<rparr>) gsm mu
        \<and> InventoryModule_process_action a gsm g
            = InventoryModule_process_action (a\<lparr>a_character_id := Some ''player''\<rparr>) gsm g
        \<and> SpellsModule_process_action a gsm g
            = SpellsModule_process_action (a\<lparr>a_character_id := Some ''player''\<rparr>) gsm g)
   \<and> (a_attacker_id a = None
      \<longrightarrow> CombatModule_process_action a gsm g
            = CombatModule_process_action (a\<lparr>a_attacker_id := Some ''player''\<rparr>) gsm g)
   \<and> (a_position a = None
      \<longrightarrow> MovementModule_process_action a gsm mu
            = MovementModule_process_action (a\<lparr>a_position := Some (0, 0)\<rparr>) gsm mu)
   \<and> (a_character_id a = None \<and> get_character_by_id gsm ''player'' = None
      \<longrightarrow> MovementModule_process_action a gsm mu = (False, gsm, mu)
        \<and> InventoryModule_process_action a gsm g = (Inr False, gsm, g)
        \<and> SpellsModule_process_action a gsm g = (Inr False, gsm, g))
   \<and> (a_type a = Some ''attack'' \<and> a_attacker_id a = None \<and> get_character_by_id gsm ''player'' = None
      \<longrightarrow> CombatModule_process_action a gsm g = (False, gsm, g))
   \<and> (\<not> type_in [''chat_with_dm'', ''dm_narrate'', ''dm_response''] a
      \<longrightarrow> (\<exists>b w' lg'. ModuleManager_process_action (registered_modules chat) a w lg = (Inr b, w', lg')))"
proof -
  have p1: "a_type a = Some ''attack'' \<and> a_target_id a = None
              \<longrightarrow> CombatModule_process_action a gsm g = (False, gsm, g)"
    by (simp add: CombatModule_process_action_def handle_attack_def truthy_def Let_def)
  have p2: "a_type a = Some ''cast_spell'' \<and> a_spell_name a = None
              \<longrightarrow> fst (SpellsModule_process_action a gsm g) = Inr False
                \<and> characters (fst (snd (SpellsModule_process_action a gsm g))) = characters gsm
                \<and> snd (snd (SpellsModule_process_action a gsm g)) = g"
    by (auto simp: SpellsModule_process_action_def cast_spell_def Let_def
          split: option.splits prod.splits)
  have p3: "a_character_id a = None
              \<longrightarrow> MovementModule_process_action a gsm mu
                    = MovementModule_process_action (a\<lparr>a_character_id := Some ''player''\<rparr>) gsm mu"
    by (simp add: MovementModule_process_action_def get_default_def Let_def)
  have p4: "a_character_id a = None
              \<longrightarrow> InventoryModule_process_action a gsm g
                    = InventoryModule_process_action (a\<lparr>a_character_id := Some ''player''\<rparr>) gsm g"
    by (simp add: InventoryModule_process_action_def get_default_def Let_def split: option.splits)
  have p5: "a_character_id a = None
              \<longrightarrow> SpellsModule_process_action a gsm g
                    = SpellsModule_process_action (a\<lparr>a_character_id := Some ''player''\<rparr>) gsm g"
    by (simp add: SpellsModule_process_action_def get_default_def Let_def split: option.splits)
  have p6: "a_attacker_id a = None
              \<longrightarrow> CombatModule_process_action a gsm g
                    = CombatModule_process_action (a\<lparr>a_attacker_id := Some ''player''\<rparr>) gsm g"
    by (simp add: CombatModule_process_action_def handle_attack_def get_default_def Let_def)
  have p7: "a_position a = None
              \<longrightarrow> MovementModule_process_action a gsm mu
                    = MovementModule_process_action (a\<lparr>a_position := Some (0, 0)\<rparr>) gsm mu"
    by (simp add: MovementModule_process_action_def get_default_def Let_def)
  have p8: "a_character_id a = None \<and> get_character_by_id gsm ''player'' = None
              \<longrightarrow> MovementModule_process_action a gsm mu = (False, gsm, mu)"
    by (simp add: MovementModule_process_action_def get_default_def handle_movement_def
          handle_dash_def Let_def)
  have p9: "a_character_id a = None \<and> get_character_by_id gsm ''player'' = None
              \<longrightarrow> InventoryModule_process_action a gsm g = (Inr False, gsm, g)"
    by (simp add: InventoryModule_process_action_def get_default_def Let_def)
  have p10: "a_character_id a = None \<and> get_character_by_id gsm ''player'' = None
              \<longrightarrow> SpellsModule_process_action a gsm g = (Inr False, gsm, g)"
    by (simp add: SpellsModule_process_action_def get_default_def Let_def)
  have p11: "a_type a = Some ''attack'' \<and> a_attacker_id a = None \<and> get_character_by_id gsm ''player'' = None
              \<longrightarrow> CombatModule_process_action a gsm g = (False, gsm, g)"
    by (simp add: CombatModule_process_action_def handle_attack_def get_default_def
          CombatModule_execute_attack_def Let_def)
  have p12: "\<not> type_in [''chat_with_dm'', ''dm_narrate'', ''dm_response''] a
              \<longrightarrow> (\<exists>b w' lg'. ModuleManager_process_action (registered_modules chat) a w lg
                                 = (Inr b, w', lg'))"
    using router_returns_when_safe [OF registered_modules_safe, of a chat w lg] by blast
  show ?thesis
    using p1 p2 p3 p4 p5 p6 p7 p8 p9 p10 p11 p12 by blast
qed

theorem C9_missing_fields_take_defaults_witness:
  "CombatModule_process_action (action_of_type ''attack'') stocked [3] = (False, stocked, [3])
   \<and> fst (SpellsModule_process_action (action_of_type ''cast_spell'') healer [5]) = Inr False
   \<and> fst (InventoryModule_process_action
             ((action_of_type ''equip'')\<lparr>a_item_name := Some ''Longsword''\<rparr>) stocked [])
       = Inr True
   \<and> fst (CombatModule_process_action
             ((action_of_type ''attack'')\<lparr>a_target_id := Some ''goblin_1''\<rparr>) stocked [3])
       = True
   \<and> fst (MovementModule_process_action (action_of_type ''move'') lone_player []) = True
   \<and> map_option position
        (get_character_by_id
           (fst (snd (MovementModule_process_action (action_of_type ''move'') lone_player [])))
           ''player'')
       = Some (0, 0)
   \<and> InventoryModule_process_action
        ((action_of_type ''equip'')\<lparr>a_item_name := Some ''Longsword''\<rparr>) new_game []
       = (Inr False, new_game, [])
   \<and> CombatModule_process_action
        ((action_of_type ''attack'')\<lparr>a_target_id := Some ''goblin_1''\<rparr>) new_game [3]
       = (False, new_game, [3])
   \<and> (\<exists>b w' lg'. ModuleManager_process_action (registered_modules silent_chat)
                      (action_of_type ''equip'') (world stocked) []
                    = (Inr b, w', lg'))"
proof -
  let ?equip = "(action_of_type ''equip'')\<lparr>a_item_name := Some ''Longsword''\<rparr>"
  let ?attack = "(action_of_type ''attack'')\<lparr>a_target_id := Some ''goblin_1''\<rparr>"
  let ?move = "action_of_type ''move''"
  have h1: "a_type (action_of_type ''attack'') = Some ''attack''
              \<and> a_target_id (action_of_type ''attack'') = None"
    by (simp add: action_of_type_def)
  have h2: "a_type (action_of_type ''cast_spell'') = Some ''cast_spell''
              \<and> a_spell_name (action_of_type ''cast_spell'') = None"
    by (simp add: action_of_type_def)
  have h3: "a_character_id ?equip = None" by (simp add: action_of_type_def)
  have h4: "a_attacker_id ?attack = None" by (simp add: action_of_type_def)
  have h5: "a_character_id ?move = None" by (simp add: action_of_type_def)
  have h6: "a_position (?move\<lparr>a_character_id := Some ''player''\<rparr>) = None"
    by (simp add: action_of_type_def)
  have h7: "a_character_id ?equip = None \<and> get_character_by_id new_game ''player'' = None"
    by (simp add: action_of_type_def eval_defs)
  have h8: "a_type ?attack = Some ''attack'' \<and> a_attacker_id ?attack = None
              \<and> get_character_by_id new_game ''player'' = None"
    by (simp add: action_of_type_def eval_defs)
  have h9: "\<not> type_in [''chat_with_dm'', ''dm_narrate'', ''dm_response''] (action_of_type ''equip'')"
    by (simp add: type_in_def action_of_type_def)
  have e1: "fst (InventoryModule_process_action (?equip\<lparr>a_character_id := Some ''player''\<rparr>) stocked [])
              = Inr True"
    by (simp add: InventoryModule_process_action_def action_of_type_def get_default_def
          equip_item_def longsword_def healing_potion_def stocked_def duel_def eval_defs
          get_set_character Let_def split: prod.splits)
  have e2: "fst (CombatModule_process_action (?attack\<lparr>a_attacker_id := Some ''player''\<rparr>) stocked [3])
              = True"
    by (simp add: CombatModule_process_action_def handle_attack_def action_of_type_def truthy_def
          get_default_def CombatModule_execute_attack_def stocked_def duel_def eval_defs
          get_set_character manhattan_def Let_def split: prod.splits)
  have e3: "fst (MovementModule_process_action
                   (?move\<lparr>a_character_id := Some ''player'', a_position := Some (0, 0)\<rparr>) lone_player [])
              = True
            \<and> map_option position
                 (get_character_by_id
                    (fst (snd (MovementModule_process_action
                       (?move\<lparr>a_character_id := Some ''player'', a_position := Some (0, 0)\<rparr>)
                       lone_player [])))
                    ''player'')
              = Some (0, 0)"
    by (simp add: MovementModule_process_action_def action_of_type_def get_default_def
          handle_movement_def is_valid_move_def is_position_blocked_def manhattan_def
          get_character_speed_def lone_player_def eval_defs Let_def)
  have t1: "CombatModule_process_action (action_of_type ''attack'') stocked [3] = (False, stocked, [3])"
    by (rule C9_missing_fields_take_defaults [of "action_of_type ''attack''" stocked "[3]",
          THEN conjunct1, THEN mp, OF h1])
  have t2: "fst (SpellsModule_process_action (action_of_type ''cast_spell'') healer [5]) = Inr False"
    by (rule C9_missing_fields_take_defaults [of "action_of_type ''cast_spell''" healer "[5]",
          THEN conjunct2, THEN conjunct1, THEN mp, OF h2, THEN conjunct1])
  have t3: "InventoryModule_process_action ?equip stocked []
              = InventoryModule_process_action (?equip\<lparr>a_character_id := Some ''player''\<rparr>) stocked []"
    by (rule C9_missing_fields_take_defaults [of ?equip stocked "[]",
          THEN conjunct2, THEN conjunct2, THEN conjunct1, THEN mp, OF h3,
          THEN conjunct2, THEN conjunct1])
  have t4: "CombatModule_process_action ?attack stocked [3]
              = CombatModule_process_action (?attack\<lparr>a_attacker_id := Some ''player''\<rparr>) stocked [3]"
    by (rule C9_missing_fields_take_defaults [of ?attack stocked "[3]",
          THEN conjunct2, THEN conjunct2, THEN conjunct2, THEN conjunct1, THEN mp, OF h4])
  have t5: "MovementModule_process_action ?move lone_player []
              = MovementModule_process_action (?move\<lparr>a_character_id := Some ''player''\<rparr>) lone_player []"
    by (rule C9_missing_fields_take_defaults [of ?move lone_player _ "[]",
          THEN conjunct2, THEN conjunct2, THEN conjunct1, THEN mp, OF h5, THEN conjunct1])
  have t6: "MovementModule_process_action (?move\<lparr>a_character_id := Some ''player''\<rparr>) lone_player []
              = MovementModule_process_action
                  (?move\<lparr>a_character_id := Some ''player'', a_position := Some (0, 0)\<rparr>) lone_player []"
    by (rule C9_missing_fields_take_defaults
          [of "?move\<lparr>a_character_id := Some ''player''\<rparr>" lone_player _ "[]",
           THEN conjunct2, THEN conjunct2, THEN conjunct2, THEN conjunct2, THEN conjunct1,
           THEN mp, OF h6])
  have t7: "InventoryModule_process_action ?equip new_game [] = (Inr False, new_game, [])"
    by (rule C9_missing_fields_take_defaults [of ?equip new_game "[]",
          THEN conjunct2, THEN conjunct2, THEN conjunct2, THEN conjunct2, THEN conjunct2,
          THEN conjunct1, THEN mp, OF h7, THEN conjunct2, THEN conjunct1])
  have t8: "CombatModule_process_action ?attack new_game [3] = (False, new_game, [3])"
    by (rule C9_missing_fields_take_defaults [of ?attack new_game "[3]",
          THEN conjunct2, THEN conjunct2, THEN conjunct2, THEN conjunct2, THEN conjunct2,
          THEN conjunct2, THEN conjunct1, THEN mp, OF h8])
  have t9: "\<exists>b w' lg'. ModuleManager_process_action (registered_modules silent_chat)
                          (action_of_type ''equip'') (world stocked) []
                        = (Inr b, w', lg')"
    by (rule C9_missing_fields_take_defaults [of "action_of_type ''equip''",
          THEN conjunct2, THEN conjunct2, THEN conjunct2, THEN conjunct2, THEN conjunct2,
          THEN conjunct2, THEN conjunct2, THEN mp, OF h9])
  have g3: "fst (InventoryModule_process_action ?equip stocked []) = Inr True"
    unfolding t3 by (rule e1)
  have g4: "fst (CombatModule_process_action ?attack stocked [3]) = True"
    unfolding t4 by (rule e2)
  have g5: "fst (MovementModule_process_action ?move lone_player []) = True"
    unfolding t5 t6 by (rule e3 [THEN conjunct1])
  have g6: "map_option position
              (get_character_by_id (fst (snd (MovementModule_process_action ?move lone_player [])))
                 ''player'')
            = Some (0, 0)"
    unfolding t5 t6 by (rule e3 [THEN conjunct2])
  show ?thesis
    by (intro conjI) (rule t1 t2 g3 g4 g5 g6 t7 t8 t9)+
qed

section \<open>The hypotheses hold in every state the constructor and add\_character build\<close>

lemma wf_new_game: "wf_characters (characters new_game)"
  by (simp add: new_game_def wf_characters_def)

lemma list_all_update:
  "list_all P cs \<Longrightarrow> P (k, v) \<Longrightarrow> list_all P (AList.update k v cs)"
  by (induction cs) auto

lemma wf_add_character:
  assumes "wf_characters (characters gsm)"
  shows "wf_characters (characters (add_character cid nm ty pos gsm))"
proof -
  have "char_id (initialize_defaults cid nm ty pos) = cid"
    by (simp add: initialize_defaults_def)
  then show ?thesis
    using assms
    by (simp add: wf_characters_def add_character_def distinct_update list_all_update)
qed

lemma hp_invariant_new_game: "hp_invariant new_game"
  by (simp add: new_game_def hp_invariant_def)

lemma hp_invariant_add_character:
  assumes "hp_invariant gsm"
  shows "hp_invariant (add_character cid nm ty pos gsm)"
proof -
  have "hp_in_range (initialize_defaults cid nm ty pos)"
    by (simp add: initialize_defaults_def hp_in_range_def)
  then show ?thesis
    using assms by (simp add: hp_invariant_def add_character_def list_all_update)
qed

lemma wf_set_character:
  assumes wf: "wf_characters (characters gsm)" and cid: "char_id c = cid"
  shows "wf_characters (characters (set_character cid c gsm))"
proof -
  have keys: "map fst (map (\<lambda>(k, v). if k = cid then (k, c) else (k, v)) cs) = map fst cs" for cs
    by (induction cs) auto
  have ids: "list_all (\<lambda>(k, c). char_id c = k) cs
               \<Longrightarrow> list_all (\<lambda>(k, c). char_id c = k)
                     (map (\<lambda>(k, v). if k = cid then (k, c) else (k, v)) cs)" for cs
    using cid by (induction cs) (auto split: if_splits)
  have eq: "characters (set_character cid c gsm)
              = map (\<lambda>(k, v). if k = cid then (k, c) else (k, v)) (characters gsm)"
    by (simp add: set_character_def)
  have d: "distinct (map fst (characters gsm))"
    and i: "list_all (\<lambda>(k, c). char_id c = k) (characters gsm)"
    using wf by (simp_all add: wf_characters_def)
  have "distinct (map fst (characters (set_character cid c gsm)))"
    unfolding eq keys by (rule d)
  moreover have "list_all (\<lambda>(k, c). char_id c = k) (characters (set_character cid c gsm))"
    unfolding eq using i by (rule ids)
  ultimately show ?thesis unfolding wf_characters_def by blast
qed

lemma wf_move_character:
  assumes "wf_characters (characters gsm)"
  shows "wf_characters (characters (snd (move_character cid p gsm)))"
proof (cases "fst (move_character cid p gsm)")
  case False
  then have "snd (move_character cid p gsm) = gsm"
    by (auto simp: move_character_def Let_def split: option.splits if_splits)
  then show ?thesis using assms by simp
next
  case True
  then obtain c where c: "get_character_by_id gsm cid = Some c"
    and s: "snd (move_character cid p gsm)
              = add_to_log (Moves (name c) (position c) p) (set_character cid (c\<lparr>position := p\<rparr>) gsm)"
    by (auto simp: move_character_def Let_def split: option.splits if_splits)
  have "char_id (c\<lparr>position := p\<rparr>) = cid"
    using assms c by (simp add: get_character_by_id_def wf_char_id)
  then have "wf_characters (characters (set_character cid (c\<lparr>position := p\<rparr>) gsm))"
    using assms by (rule wf_set_character [rotated])
  then show ?thesis by (simp add: s)
qed

end
